theory Spec2Isabelle
  imports Complex_Main
begin

section \<open>The output controller of Mycodo (controller\_output.py)\<close>

text \<open>
  The class \<open>OutputController\<close> keeps one dictionary per attribute of an output, all keyed
  by the output's id; \<open>all_outputs_initialize\<close>, \<open>add_mod_output\<close> and \<open>del_output\<close> insert
  and remove the keys together. The model keeps one entry per id that holds these
  attributes, in the iteration order of the dictionary. The handles \<open>wireless_pi_switch\<close>
  and \<open>pwm_output\<close>, which only \<open>setup_pin\<close> creates, are booleans (handle present).

  Python's floats (amps, durations, duty cycles, clock readings) are real numbers here:
  rounding is not modelled. A call reads the clock several times; the model gives every
  read of one call the same instant \<open>now\<close> (seconds). String tags stay strings.
\<close>

datatype py_error = KeyError | RecursionError | TypeError

record relay =
  output_unique_id :: string
  output_type :: string
  output_pin :: "int option"
  output_amps :: real
  output_trigger :: bool
  output_on_until :: real
  output_last_duration :: real
  output_on_duration :: bool
  output_time_turned_on :: "real option"
  output_on_command :: string
  output_off_command :: string
  wireless_pi_switch :: bool
  pwm_hertz :: int
  pwm_library :: string
  pwm_output :: bool
  pwm_state :: "real option"
  pwm_time_turned_on :: "real option"

text \<open>
  Everything the controller does to the outside world is appended to a trace: writes to a
  GPIO pin, transmissions, shell commands, pigpio calls, samples written to the time
  series store, e-mails and display flashes. \<open>Transmit\<close> carries the configured code
  string (the source sends \<open>int\<close> of it), \<open>Conditional_command\<close> the command template with the
  four values substituted into it. Log lines are not part of the trace, and neither is
  \<open>GPIO.setup\<close>, which configures a pin without driving it.
\<close>

datatype event =
    GPIO_output int bool
  | Transmit int string
  | Cmd_output string
  | Hardware_PWM int int real
  | Set_PWM_frequency int int
  | Set_PWM_dutycycle int int
  | Write_influxdb string string real "real option"
  | Send_email string
  | Flash_lcd int
  | Conditional_command string "int option" string real real

record controller =
  outputs :: "(int \<times> relay) list"
  gpio :: "int \<Rightarrow> bool"
  smtp_max_count :: int
  smtp_wait_time :: real
  email_count :: int
  allowed_to_send_notice :: bool
  events :: "event list"

text \<open>
  The rows of the configuration store that the controller reads on demand. The
  controller never writes them.
\<close>

record conditional =
  conditional_id :: int
  if_relay_id :: int
  is_activated :: bool
  if_relay_state :: string
  if_relay_duration :: "real option"

record conditional_action =
  action_conditional_id :: int
  do_action :: string
  do_relay_id :: int
  do_relay_state :: string
  do_relay_duration :: real
  do_action_string :: string
  do_lcd_id :: int

record database =
  max_amps :: real
  conditionals :: "conditional list"
  conditional_actions :: "conditional_action list"

type_synonym 'a result = "(py_error + 'a) \<times> controller"

definition emit :: "event \<Rightarrow> controller \<Rightarrow> controller" where
  "emit e s = s\<lparr>events := events s @ [e]\<rparr>"

definition get_output :: "controller \<Rightarrow> int \<Rightarrow> relay option" where
  "get_output s output_id = map_of (outputs s) output_id"

definition set_output :: "int \<Rightarrow> (relay \<Rightarrow> relay) \<Rightarrow> controller \<Rightarrow> controller" where
  "set_output output_id f s =
     s\<lparr>outputs := map (\<lambda>(k, v). if k = output_id then (k, f v) else (k, v)) (outputs s)\<rparr>"

text \<open>\<open>_is_setup\<close>: a wired output needs a truthy pin (neither None nor 0).\<close>

definition is_setup :: "relay \<Rightarrow> bool" where
  "is_setup out =
     (if output_type out = ''wired'' \<and> output_pin out \<noteq> None \<and> output_pin out \<noteq> Some 0 then True
      else if output_type out \<in> set [''command'', ''wireless_433MHz_pi_switch''] then True
      else if output_type out = ''pwm'' then pwm_output out
      else False)"

text \<open>
  \<open>is_on\<close>: a wired output is on when its pin reads the trigger level; a command or
  wireless output when \<open>output_time_turned_on\<close> is set; a PWM output when
  \<open>pwm_time_turned_on\<close> is set (a datetime is always truthy). \<open>GPIO.input\<close> reads the
  level that \<open>GPIO.output\<close> wrote last. Every caller modelled here passes a registered
  id (for an unregistered one the source raises KeyError).
\<close>

definition output_is_on :: "(int \<Rightarrow> bool) \<Rightarrow> relay \<Rightarrow> bool" where
  "output_is_on pins out =
     (if output_type out = ''wired'' \<and> is_setup out then
        (case output_pin out of Some p \<Rightarrow> output_trigger out = pins p | None \<Rightarrow> False)
      else if output_type out \<in> set [''command'', ''wireless_433MHz_pi_switch'']
        then output_time_turned_on out \<noteq> None
      else if output_type out = ''pwm'' then pwm_time_turned_on out \<noteq> None
      else False)"

definition is_on :: "controller \<Rightarrow> int \<Rightarrow> bool" where
  "is_on s output_id =
     (case get_output s output_id of
        Some out \<Rightarrow> output_is_on (gpio s) out
      | None \<Rightarrow> False)"

text \<open>
  \<open>current_amp_load\<close>: the loop over \<open>output_amps.items()\<close>, adding the amps of each output
  that \<open>is_on\<close>.
\<close>

definition current_amp_load :: "controller \<Rightarrow> real" where
  "current_amp_load s =
     foldl (\<lambda>amp_load (each_output_id, out).
              if is_on s each_output_id then amp_load + output_amps out else amp_load)
       0 (outputs s)"

subsection \<open>output\_switch\<close>

definition gpio_output :: "int \<Rightarrow> bool \<Rightarrow> controller \<Rightarrow> controller" where
  "gpio_output pin level s = emit (GPIO_output pin level) (s\<lparr>gpio := (gpio s)(pin := level)\<rparr>)"

text \<open>
  \<open>calc_duty_cycle\<close> of the pigpio\_any library: \<open>int((abs(duty_cycle) / 100.0) * 255)\<close>,
  then limited to 0..255.
\<close>

definition calc_duty_cycle :: "real \<Rightarrow> int" where
  "calc_duty_cycle duty_cycle =
     (let c = \<lfloor>(\<bar>duty_cycle\<bar> / 100) * 255\<rfloor>;
          c = (if c > 255 then 255 else c);
          c = (if c < 0 then 0 else c)
      in c)"

text \<open>
  \<open>output_switch\<close> drives the hardware and, for a PWM output, records \<open>pwm_state\<close>. A
  missing handle is a KeyError of the handle dictionary; a pin of None handed to the GPIO
  or pigpio library is a TypeError (\<open>output_on_off\<close> checks the pin before it calls).
\<close>

definition output_switch :: "controller \<Rightarrow> int \<Rightarrow> string \<Rightarrow> real \<Rightarrow> unit result" where
  "output_switch s output_id state duty_cycle =
     (case get_output s output_id of
        None \<Rightarrow> (Inl KeyError, s)
      | Some out \<Rightarrow>
          if output_type out = ''wired'' then
            (case output_pin out of
               None \<Rightarrow> (if state = ''on'' \<or> state = ''off'' then (Inl TypeError, s) else (Inr (), s))
             | Some pin \<Rightarrow>
                 if state = ''on'' then (Inr (), gpio_output pin (output_trigger out) s)
                 else if state = ''off'' then (Inr (), gpio_output pin (\<not> output_trigger out) s)
                 else (Inr (), s))
          else if output_type out = ''wireless_433MHz_pi_switch'' then
            (if state = ''on'' then
               (if wireless_pi_switch out
                then (Inr (), emit (Transmit output_id (output_on_command out)) s)
                else (Inl KeyError, s))
             else if state = ''off'' then
               (if wireless_pi_switch out
                then (Inr (), emit (Transmit output_id (output_off_command out)) s)
                else (Inl KeyError, s))
             else (Inr (), s))
          else if output_type out = ''command'' then
            (if state = ''on'' \<and> output_on_command out \<noteq> []
               then (Inr (), emit (Cmd_output (output_on_command out)) s)
             else if state = ''off'' \<and> output_off_command out \<noteq> []
               then (Inr (), emit (Cmd_output (output_off_command out)) s)
             else (Inr (), s))
          else if output_type out = ''pwm'' then
            (if state = ''on'' then
               (if pwm_library out = ''pigpio_hardware'' then
                  (if \<not> pwm_output out then (Inl KeyError, s)
                   else case output_pin out of
                     None \<Rightarrow> (Inl TypeError, s)
                   | Some pin \<Rightarrow>
                       (Inr (),
                        set_output output_id (\<lambda>r. r\<lparr>pwm_state := Some \<bar>duty_cycle\<bar>\<rparr>)
                          (emit (Hardware_PWM pin (pwm_hertz out) (\<bar>duty_cycle\<bar> * 10000)) s)))
                else if pwm_library out = ''pigpio_any'' then
                  (if \<not> pwm_output out then (Inl KeyError, s)
                   else case output_pin out of
                     None \<Rightarrow> (Inl TypeError, s)
                   | Some pin \<Rightarrow>
                       (Inr (),
                        set_output output_id (\<lambda>r. r\<lparr>pwm_state := Some \<bar>duty_cycle\<bar>\<rparr>)
                          (emit (Set_PWM_dutycycle pin (calc_duty_cycle duty_cycle))
                            (emit (Set_PWM_frequency pin (pwm_hertz out)) s))))
                else (Inr (), set_output output_id (\<lambda>r. r\<lparr>pwm_state := Some \<bar>duty_cycle\<bar>\<rparr>) s))
             else if state = ''off'' then
               (if pwm_library out = ''pigpio_hardware'' then
                  (if \<not> pwm_output out then (Inl KeyError, s)
                   else case output_pin out of
                     None \<Rightarrow> (Inl TypeError, s)
                   | Some pin \<Rightarrow>
                       (Inr (),
                        set_output output_id (\<lambda>r. r\<lparr>pwm_state := None\<rparr>)
                          (emit (Hardware_PWM pin (pwm_hertz out) 0) s)))
                else if pwm_library out = ''pigpio_any'' then
                  (if \<not> pwm_output out then (Inl KeyError, s)
                   else case output_pin out of
                     None \<Rightarrow> (Inl TypeError, s)
                   | Some pin \<Rightarrow>
                       (Inr (),
                        set_output output_id (\<lambda>r. r\<lparr>pwm_state := None\<rparr>)
                          (emit (Set_PWM_dutycycle pin 0)
                            (emit (Set_PWM_frequency pin (pwm_hertz out)) s))))
                else (Inr (), set_output output_id (\<lambda>r. r\<lparr>pwm_state := None\<rparr>) s))
             else (Inr (), s))
          else (Inr (), s))"

subsection \<open>output\_on\_off\<close>

text \<open>
  How a block of \<open>output_on_off\<close> ends: with a \<open>return\<close> (of 0, of 1, or a bare
  \<open>return\<close>, which gives None), with an exception, or by falling through to the check of
  the conditionals, carrying the value the local variable \<open>duration\<close> has by then.
\<close>

datatype flow = Return "int option" | Raise py_error | Continue real

text \<open>
  The three refusals at the head of the \<open>'on'\<close> branch: no pin where the type needs one;
  the amps of all outputs that are on plus this output's amps above \<open>max_amps\<close>; the
  output off for less than \<open>min_off\<close> seconds. The last two are for the types command,
  wired and wireless only.
\<close>

definition on_refused :: "database \<Rightarrow> real \<Rightarrow> controller \<Rightarrow> int \<Rightarrow> relay \<Rightarrow> real \<Rightarrow> bool" where
  "on_refused db now s output_id out min_off =
     (if output_type out \<in> set [''pwm'', ''wired'', ''wireless_433MHz_pi_switch'']
         \<and> output_pin out = None then True
      else if output_type out \<in> set [''command'', ''wired'', ''wireless_433MHz_pi_switch''] then
        (if current_amp_load s + output_amps out > max_amps db then True
         else if min_off \<noteq> 0 \<and> \<not> is_on s output_id \<and> now > output_on_until out
           then now - output_on_until out < min_off
         else False)
      else False)"

definition switched :: "unit result \<Rightarrow> real \<Rightarrow> flow \<times> controller" where
  "switched r duration =
     (case r of (Inl e, s) \<Rightarrow> (Raise e, s) | (Inr _, s) \<Rightarrow> (Continue duration, s))"

text \<open>
  The \<open>'on'\<close> branch. The second test of the timed case reads
  \<open>not self.output_on_duration\<close> in the source: the dictionary itself, which is falsy only
  when it is empty.
\<close>

definition output_on ::
  "database \<Rightarrow> real \<Rightarrow> controller \<Rightarrow> int \<Rightarrow> relay \<Rightarrow> real \<Rightarrow> real \<Rightarrow> real \<Rightarrow> flow \<times> controller" where
  "output_on db now s output_id out duration min_off duty_cycle =
     (if on_refused db now s output_id out min_off then (Return (Some 1), s)
      else if output_type out \<in> set [''command'', ''wired'', ''wireless_433MHz_pi_switch'']
              \<and> duration \<noteq> 0 then
        (if is_on s output_id \<and> output_on_duration out then
           (let remaining_time =
                  (if output_on_until out > now then output_on_until out - now else 0);
                time_on = output_last_duration out - remaining_time;
                s1 = set_output output_id
                       (\<lambda>r. r\<lparr>output_on_until := now + duration,
                                output_last_duration := duration\<rparr>) s;
                s2 = (if time_on > 0
                      then emit (Write_influxdb (output_unique_id out) ''duration_sec''
                                   time_on (Some (now - time_on))) s1
                      else s1)
            in (Return (Some 0), s2))
         else if is_on s output_id \<and> outputs s = [] then
           (Return (Some 0),
            set_output output_id
              (\<lambda>r. r\<lparr>output_on_duration := True,
                       output_on_until := now + duration,
                       output_last_duration := duration\<rparr>) s)
         else
           switched
             (output_switch
                (set_output output_id
                   (\<lambda>r. r\<lparr>output_on_until := now + duration,
                            output_on_duration := True,
                            output_last_duration := duration\<rparr>) s)
                output_id ''on'' 0)
             duration)
      else if output_type out \<in> set [''command'', ''wired'', ''wireless_433MHz_pi_switch''] then
        (if is_on s output_id then (Return (Some 1), s)
         else
           switched
             (output_switch
                (set_output output_id (\<lambda>r. r\<lparr>output_time_turned_on := Some now\<rparr>) s)
                output_id ''on'' 0)
             duration)
      else if output_type out = ''pwm'' then
        (if pwm_hertz out \<le> 0 then (Return (Some 1), s)
         else
           (case output_switch
                   (set_output output_id (\<lambda>r. r\<lparr>pwm_time_turned_on := Some now\<rparr>) s)
                   output_id ''on'' duty_cycle of
              (Inl e, s1) \<Rightarrow> (Raise e, s1)
            | (Inr _, s1) \<Rightarrow>
                (Continue duration,
                 emit (Write_influxdb (output_unique_id out) ''duty_cycle'' duty_cycle None) s1)))
      else (Continue duration, s))"

text \<open>
  The \<open>'off'\<close> branch. After the switch it writes the sample of the interval that ended:
  for a PWM output the \<open>duty_cycle\<close> argument of the call, for the others the seconds the
  output was on, each with the timestamp of the start of the interval.
\<close>

definition output_off ::
  "real \<Rightarrow> controller \<Rightarrow> int \<Rightarrow> relay \<Rightarrow> real \<Rightarrow> real \<Rightarrow> flow \<times> controller" where
  "output_off now s output_id out duration duty_cycle =
     (if \<not> is_setup out then (Return None, s)
      else if output_type out \<in> set [''pwm'', ''wired'', ''wireless_433MHz_pi_switch'']
              \<and> output_pin out = None then (Return None, s)
      else
        (case output_switch s output_id ''off'' 0 of
           (Inl e, s1) \<Rightarrow> (Raise e, s1)
         | (Inr _, s1) \<Rightarrow>
             if output_type out = ''pwm'' \<and> pwm_time_turned_on out \<noteq> None then
               (case pwm_time_turned_on out of
                  None \<Rightarrow> (Continue duration, s1)
                | Some t \<Rightarrow>
                    (let duration = now - t;
                         s2 = set_output output_id (\<lambda>r. r\<lparr>pwm_time_turned_on := None\<rparr>) s1
                     in (Continue duration,
                         emit (Write_influxdb (output_unique_id out) ''duty_cycle''
                                 duty_cycle (Some (now - duration))) s2)))
             else if output_time_turned_on out \<noteq> None \<or> output_on_duration out then
               (let (duration, s2) =
                      (if output_on_duration out then
                         (let remaining_time =
                                (if output_on_until out > now then output_on_until out - now
                                 else 0)
                          in (output_last_duration out - remaining_time,
                              set_output output_id
                                (\<lambda>r. r\<lparr>output_on_duration := False,
                                         output_on_until := now\<rparr>) s1))
                       else (0, s1));
                    (duration, s3) =
                      (case output_time_turned_on out of
                         Some t \<Rightarrow>
                           (now - t,
                            set_output output_id (\<lambda>r. r\<lparr>output_time_turned_on := None\<rparr>) s2)
                       | None \<Rightarrow> (duration, s2))
                in (Continue duration,
                    emit (Write_influxdb (output_unique_id out) ''duration_sec''
                            duration (Some (now - duration))) s3))
             else (Continue duration, s1)))"

subsection \<open>check\_conditionals\<close>

text \<open>
  The e-mail action: the throttle of \<open>check_conditionals\<close> and the send. \<open>email_count\<close> is
  incremented after the \<open>if\<close>/\<open>else\<close>, on both paths.
\<close>

definition email_action :: "real \<Rightarrow> conditional_action \<Rightarrow> controller \<Rightarrow> controller" where
  "email_action now a s =
     (let s1 =
            (if email_count s \<ge> smtp_max_count s \<and> now < smtp_wait_time s
             then s\<lparr>allowed_to_send_notice := False\<rparr>
             else
               (let s0 = (if now > smtp_wait_time s
                          then s\<lparr>email_count := 0, smtp_wait_time := now + 3600\<rparr>
                          else s)
                in s0\<lparr>allowed_to_send_notice := True\<rparr>));
          s2 = s1\<lparr>email_count := email_count s1 + 1\<rparr>
      in if allowed_to_send_notice s2 then emit (Send_email (do_action_string a)) s2 else s2)"

text \<open>
  The rules \<open>check_conditionals\<close> selects: those bound to the output and activated; then,
  when the output \<open>is_on\<close>, those watching \<open>on_any\<close>, or \<open>on\<close> with \<open>if_relay_duration\<close>
  equal to \<open>on_duration\<close>; otherwise those watching \<open>off\<close>.
\<close>

definition matching_conditionals ::
  "database \<Rightarrow> controller \<Rightarrow> int \<Rightarrow> real \<Rightarrow> conditional list" where
  "matching_conditionals db s output_id on_duration =
     (let cs = filter (\<lambda>c. if_relay_id c = output_id) (conditionals db);
          cs = filter (\<lambda>c. is_activated c) cs
      in if is_on s output_id then
           (let cs = filter (\<lambda>c. if_relay_state c = ''on'' \<or> if_relay_state c = ''on_any'') cs
            in filter (\<lambda>c. if_relay_state c = ''on_any'' \<or>
                            (if_relay_state c = ''on'' \<and> if_relay_duration c = Some on_duration))
                 cs)
         else filter (\<lambda>c. if_relay_state c = ''off'') cs)"

type_synonym switcher = "controller \<Rightarrow> int \<Rightarrow> string \<Rightarrow> real \<Rightarrow> int option result"

text \<open>
  One action of a matched rule. \<open>switch\<close> stands for the call of \<open>output_on_off\<close> that a
  relay action makes (with the target, the state and the duration; every other argument at
  its default); its return value is dropped, an exception of it propagates.
\<close>

definition run_action ::
  "switcher \<Rightarrow> real \<Rightarrow> int \<Rightarrow> string \<Rightarrow> real \<Rightarrow> real \<Rightarrow> conditional_action \<Rightarrow>
     controller \<Rightarrow> unit result" where
  "run_action switch now output_id state on_duration duty_cycle a s =
     (if do_action a = ''relay'' then
        (if get_output s (do_relay_id a) = None then (Inr (), s)
         else
           (case switch s (do_relay_id a) (do_relay_state a) (do_relay_duration a) of
              (Inl e, s1) \<Rightarrow> (Inl e, s1)
            | (Inr _, s1) \<Rightarrow> (Inr (), s1)))
      else if do_action a = ''command'' then
        (case get_output s output_id of
           None \<Rightarrow> (Inl KeyError, s)
         | Some out \<Rightarrow>
             (Inr (),
              emit (Conditional_command (do_action_string a) (output_pin out) state
                      on_duration duty_cycle) s))
      else if do_action a = ''email'' then (Inr (), email_action now a s)
      else if do_action a = ''flash_lcd'' then (Inr (), emit (Flash_lcd (do_lcd_id a)) s)
      else (Inr (), s))"

fun run_actions ::
  "switcher \<Rightarrow> real \<Rightarrow> int \<Rightarrow> string \<Rightarrow> real \<Rightarrow> real \<Rightarrow> conditional_action list \<Rightarrow>
     controller \<Rightarrow> unit result" where
  "run_actions switch now output_id state on_duration duty_cycle [] s = (Inr (), s)"
| "run_actions switch now output_id state on_duration duty_cycle (a # as) s =
     (case run_action switch now output_id state on_duration duty_cycle a s of
        (Inl e, s1) \<Rightarrow> (Inl e, s1)
      | (Inr _, s1) \<Rightarrow> run_actions switch now output_id state on_duration duty_cycle as s1)"

fun run_conditionals ::
  "switcher \<Rightarrow> database \<Rightarrow> real \<Rightarrow> int \<Rightarrow> string \<Rightarrow> real \<Rightarrow> real \<Rightarrow> conditional list \<Rightarrow>
     controller \<Rightarrow> unit result" where
  "run_conditionals switch db now output_id state on_duration duty_cycle [] s = (Inr (), s)"
| "run_conditionals switch db now output_id state on_duration duty_cycle (c # cs) s =
     (case run_actions switch now output_id state on_duration duty_cycle
             (filter (\<lambda>a. action_conditional_id a = conditional_id c) (conditional_actions db)) s of
        (Inl e, s1) \<Rightarrow> (Inl e, s1)
      | (Inr _, s1) \<Rightarrow>
          run_conditionals switch db now output_id state on_duration duty_cycle cs s1)"

definition check_conditionals ::
  "switcher \<Rightarrow> database \<Rightarrow> real \<Rightarrow> controller \<Rightarrow> int \<Rightarrow> string \<Rightarrow> real \<Rightarrow> real \<Rightarrow> unit result" where
  "check_conditionals switch db now s output_id state on_duration duty_cycle =
     run_conditionals switch db now output_id state on_duration duty_cycle
       (matching_conditionals db s output_id on_duration) s"

text \<open>
  The body of \<open>output_on_off\<close>, with the call that a relay action makes as a parameter.
\<close>

definition output_on_off_body ::
  "switcher \<Rightarrow> database \<Rightarrow> real \<Rightarrow> controller \<Rightarrow> int \<Rightarrow> string \<Rightarrow> real \<Rightarrow> real \<Rightarrow> real \<Rightarrow> bool \<Rightarrow>
     int option result" where
  "output_on_off_body switch db now s output_id state duration min_off duty_cycle
       trigger_conditionals =
     (case get_output s output_id of
        None \<Rightarrow> (Inr (Some 1), s)
      | Some out \<Rightarrow>
          (case (if state = ''on''
                   then output_on db now s output_id out duration min_off duty_cycle
                 else if state = ''off''
                   then output_off now s output_id out duration duty_cycle
                 else (Continue duration, s)) of
             (Return r, s1) \<Rightarrow> (Inr r, s1)
           | (Raise e, s1) \<Rightarrow> (Inl e, s1)
           | (Continue on_duration, s1) \<Rightarrow>
               if trigger_conditionals then
                 (case check_conditionals switch db now s1 output_id state on_duration
                         duty_cycle of
                    (Inl e, s2) \<Rightarrow> (Inl e, s2)
                  | (Inr _, s2) \<Rightarrow> (Inr None, s2))
               else (Inr None, s1)))"

text \<open>
  \<open>output_on_off\<close>. A relay action calls \<open>output_on_off\<close> again, and rules can trigger each
  other without end; Python then raises RecursionError when its stack is full. The first
  argument is the number of nested cascades the stack still has room for.
\<close>

primrec output_on_off ::
  "nat \<Rightarrow> database \<Rightarrow> real \<Rightarrow> controller \<Rightarrow> int \<Rightarrow> string \<Rightarrow> real \<Rightarrow> real \<Rightarrow> real \<Rightarrow> bool \<Rightarrow>
     int option result" where
  "output_on_off 0 db now s output_id state duration min_off duty_cycle trigger_conditionals =
     output_on_off_body (\<lambda>s' _ _ _. (Inl RecursionError, s'))
       db now s output_id state duration min_off duty_cycle trigger_conditionals"
| "output_on_off (Suc depth) db now s output_id state duration min_off duty_cycle
       trigger_conditionals =
     output_on_off_body
       (\<lambda>s' target target_state target_duration.
          output_on_off depth db now s' target target_state target_duration 0 0 True)
       db now s output_id state duration min_off duty_cycle trigger_conditionals"

subsection \<open>The loop of run\<close>

text \<open>
  One pass of the \<open>while\<close> loop of \<open>run\<close> at the instant \<open>now\<close>. The source starts a thread
  for each \<open>'off'\<close> request and for each write; here they run at once, in that order. An
  exception in such a thread ends the thread, not the loop.
\<close>

definition run_output :: "nat \<Rightarrow> database \<Rightarrow> real \<Rightarrow> int \<Rightarrow> controller \<Rightarrow> controller" where
  "run_output depth db now output_id s =
     (case get_output s output_id of
        None \<Rightarrow> s
      | Some out \<Rightarrow>
          if output_on_until out < now \<and> output_on_duration out \<and> output_pin out \<noteq> None then
            (let s1 = snd (output_on_off depth db now s output_id ''off'' 0 0 0 True)
             in if output_last_duration out > 0
                then emit (Write_influxdb (output_unique_id out) ''duration_sec''
                             (output_last_duration out)
                             (Some (now - output_last_duration out))) s1
                else s1)
          else s)"

definition run_loop_pass :: "nat \<Rightarrow> database \<Rightarrow> real \<Rightarrow> controller \<Rightarrow> controller" where
  "run_loop_pass depth db now s =
     fold (run_output depth db now) (map fst (outputs s)) s"

text \<open>The call a relay action makes, at each depth of the stack.\<close>

definition cascade :: "nat \<Rightarrow> database \<Rightarrow> real \<Rightarrow> switcher" where
  "cascade depth db now =
     (case depth of
        0 \<Rightarrow> (\<lambda>s' _ _ _. (Inl RecursionError, s'))
      | Suc n \<Rightarrow>
          (\<lambda>s' target target_state target_duration.
             output_on_off n db now s' target target_state target_duration 0 0 True))"

subsection \<open>Example configurations\<close>

text \<open>
  An output as \<open>all_outputs_initialize\<close> leaves it (off, no interval running, the handle of
  its type acquired when it has a pin), a controller with such outputs, all pins low, and
  a configuration store without rules.
\<close>

definition idle_output :: "string \<Rightarrow> string \<Rightarrow> int option \<Rightarrow> real \<Rightarrow> relay" where
  "idle_output uid type pin amps =
     \<lparr>output_unique_id = uid, output_type = type, output_pin = pin, output_amps = amps,
      output_trigger = True, output_on_until = 0, output_last_duration = 0,
      output_on_duration = False, output_time_turned_on = None,
      output_on_command = ''22559'', output_off_command = ''22558'',
      wireless_pi_switch = (type = ''wireless_433MHz_pi_switch'' \<and> pin \<noteq> None),
      pwm_hertz = 22000, pwm_library = ''pigpio_any'',
      pwm_output = (type = ''pwm'' \<and> pin \<noteq> None), pwm_state = None,
      pwm_time_turned_on = None\<rparr>"

definition idle_controller :: "(int \<times> relay) list \<Rightarrow> controller" where
  "idle_controller outs =
     \<lparr>outputs = outs, gpio = (\<lambda>_. False), smtp_max_count = 2, smtp_wait_time = 3600,
      email_count = 0, allowed_to_send_notice = True, events = []\<rparr>"

definition no_rules :: "real \<Rightarrow> database" where
  "no_rules budget = \<lparr>max_amps = budget, conditionals = [], conditional_actions = []\<rparr>"

text \<open>Outputs X (id 1) and Y (id 2) of one type, drawing 6 A each.\<close>

definition two_outputs :: "string \<Rightarrow> controller" where
  "two_outputs type =
     idle_controller
       [(1, idle_output ''X'' type (if type = ''command'' then None else Some 17) 6),
        (2, idle_output ''Y'' type (if type = ''command'' then None else Some 27) 6)]"

text \<open>
  With a budget of 10 A: X is switched on without a duration, and later switched off, each
  by \<open>output_on_off\<close>.
\<close>

definition x_switched_on :: "string \<Rightarrow> controller" where
  "x_switched_on type =
     snd (output_on_off 0 (no_rules 10) 100 (two_outputs type) 1 ''on'' 0 0 0 True)"

definition x_switched_off :: "string \<Rightarrow> controller" where
  "x_switched_off type =
     snd (output_on_off 0 (no_rules 10) 300 (x_switched_on type) 1 ''off'' 0 0 0 True)"

text \<open>An e-mail action, and a controller that has reached its hourly maximum of 2.\<close>

definition email_to :: "string \<Rightarrow> conditional_action" where
  "email_to address =
     \<lparr>action_conditional_id = 1, do_action = ''email'', do_relay_id = 0, do_relay_state = [],
      do_relay_duration = 0, do_action_string = address, do_lcd_id = 0\<rparr>"

definition throttled :: controller where
  "throttled = (idle_controller [])\<lparr>email_count := 2\<rparr>"

text \<open>
  A PWM output on pin 18 with its handle, for either library; and the clamp of the
  specification, which limits the percentage itself to 0..100.
\<close>

definition pwm_example :: "string \<Rightarrow> controller" where
  "pwm_example library =
     idle_controller [(1, (idle_output ''P'' ''pwm'' (Some 18) 0)\<lparr>pwm_library := library\<rparr>)]"

definition spec_clamped_duty_cycle :: "real \<Rightarrow> real" where
  "spec_clamped_duty_cycle duty_cycle = max 0 (min 100 duty_cycle)"

text \<open>The wired output X switched on for 30 seconds at the instant 100, with a budget of 20 A.\<close>

definition x_timed_on :: controller where
  "x_timed_on =
     snd (output_on_off 0 (no_rules 20) 100 (two_outputs ''wired'') 1 ''on'' 30 0 0 True)"

text \<open>
  Three activated rules on output 1, each with one e-mail action: one watching \<open>on\<close> with
  the duration 30, one watching \<open>off\<close>, one watching \<open>on_any\<close>; and output 1 of
  \<open>two_outputs\<close> after an on-request with a given duration under these rules.
\<close>

definition rule :: "int \<Rightarrow> int \<Rightarrow> string \<Rightarrow> real option \<Rightarrow> conditional" where
  "rule cid output_id state duration =
     \<lparr>conditional_id = cid, if_relay_id = output_id, is_activated = True,
      if_relay_state = state, if_relay_duration = duration\<rparr>"

definition email_for :: "int \<Rightarrow> string \<Rightarrow> conditional_action" where
  "email_for cid address = (email_to address)\<lparr>action_conditional_id := cid\<rparr>"

definition email_rules :: database where
  "email_rules =
     \<lparr>max_amps = 10,
      conditionals = [rule 1 1 ''on'' (Some 30), rule 2 1 ''off'' None, rule 3 1 ''on_any'' None],
      conditional_actions =
        [email_for 1 ''on-30'', email_for 2 ''off'', email_for 3 ''on-any'']\<rparr>"

definition a_on_for :: "string \<Rightarrow> real \<Rightarrow> controller" where
  "a_on_for type duration =
     snd (output_on_off 0 email_rules 100 (two_outputs type) 1 ''on'' duration 0 0 True)"

text \<open>
  Output X of \<open>two_outputs\<close> switched on for 30 seconds at the instant 100 under a budget of
  10 A.
\<close>

definition x_on_for_30 :: "string \<Rightarrow> controller" where
  "x_on_for_30 type =
     snd (output_on_off 0 (no_rules 10) 100 (two_outputs type) 1 ''on'' 30 0 0 True)"

text \<open>The command output X (no pin) switched on for 30 seconds at the instant 100.\<close>

definition command_timed_on :: controller where
  "command_timed_on =
     snd (output_on_off 0 (no_rules 20) 100 (two_outputs ''command'') 1 ''on'' 30 0 0 True)"

text \<open>
  The part of an output that no request changes: id, type, pin, amps and trigger level.
\<close>

type_synonym static_entry = "int \<times> string \<times> int option \<times> real \<times> bool"

definition static :: "controller \<Rightarrow> static_entry list" where
  "static s =
     map (\<lambda>(i, out). (i, output_type out, output_pin out, output_amps out, output_trigger out))
       (outputs s)"

text \<open>
  A registry the budget can be kept on: the ids are distinct, no output has negative amps, a
  PWM output draws nothing (\<open>current_amp_load\<close> counts it when it is on, but its on-request
  is never checked against the budget), and no two wired outputs share a pin.
\<close>

definition budget_config :: "controller \<Rightarrow> bool" where
  "budget_config s \<longleftrightarrow>
     distinct (map fst (static s)) \<and>
     (\<forall>(i, type, pin, amps, trigger) \<in> set (static s).
        0 \<le> amps \<and> (type = ''pwm'' \<longrightarrow> amps = 0)) \<and>
     (\<forall>(i, type, pin, amps, trigger) \<in> set (static s).
        \<forall>(j, type', pin', amps', trigger') \<in> set (static s).
          type = ''wired'' \<and> type' = ''wired'' \<and> pin \<noteq> None \<and> pin = pin' \<longrightarrow> i = j)"

definition within_budget :: "database \<Rightarrow> controller \<Rightarrow> bool" where
  "within_budget db s \<longleftrightarrow> current_amp_load s \<le> max_amps db"

text \<open>A step that changes no static part and switches on no output other than \<open>i\<close>.\<close>

definition quiet :: "int \<Rightarrow> controller \<Rightarrow> controller \<Rightarrow> bool" where
  "quiet i s s' \<longleftrightarrow> static s' = static s \<and> (\<forall>j. j \<noteq> i \<longrightarrow> is_on s' j \<longrightarrow> is_on s j)"

definition safe :: "database \<Rightarrow> controller \<Rightarrow> bool" where
  "safe db s \<longleftrightarrow> budget_config s \<and> within_budget db s"

text \<open>A PWM output that draws 6 A; and two wired outputs of 6 A each on one pin.\<close>

definition shared_pin :: controller where
  "shared_pin =
     idle_controller
       [(1, idle_output ''X'' ''wired'' (Some 17) 6),
        (2, idle_output ''Y'' ''wired'' (Some 17) 6)]"

definition pwm_heater :: controller where
  "pwm_heater = idle_controller [(1, idle_output ''P'' ''pwm'' (Some 18) 6)]"

text \<open>
  What reaches the controller: a call of \<open>output_on_off\<close> with its six arguments, or a pass
  of the loop of \<open>run\<close>; each at an instant, one after another.
\<close>

datatype request = Switch int string real real real bool | Pass

fun serve :: "nat \<Rightarrow> database \<Rightarrow> real \<times> request \<Rightarrow> controller \<Rightarrow> controller" where
  "serve depth db (now, Switch output_id state duration min_off duty_cycle trig) s =
     snd (output_on_off depth db now s output_id state duration min_off duty_cycle trig)"
| "serve depth db (now, Pass) s = run_loop_pass depth db now s"

section \<open>Properties\<close>

named_theorems model

lemmas [model] = get_output_def set_output_def emit_def is_setup_def output_is_on_def is_on_def
  current_amp_load_def gpio_output_def output_switch_def on_refused_def switched_def
  output_on_def output_off_def email_action_def matching_conditionals_def run_action_def
  check_conditionals_def output_on_off_body_def run_output_def run_loop_pass_def
  idle_output_def idle_controller_def no_rules_def two_outputs_def

lemma output_on_off_cascade:
  "output_on_off depth db now s output_id state duration min_off duty_cycle trig =
     output_on_off_body (cascade depth db now) db now s output_id state duration min_off
       duty_cycle trig"
  by (cases depth) (simp_all add: cascade_def)

lemma x_switched_on_command:
  "get_output (x_switched_on ''command'') 2 = Some (idle_output ''Y'' ''command'' None 6)"
  "get_output (x_switched_on ''command'') 1
     = Some ((idle_output ''X'' ''command'' None 6)\<lparr>output_time_turned_on := Some 100\<rparr>)"
  "current_amp_load (x_switched_on ''command'') = 6"
  "is_on (x_switched_on ''command'') 1"
  by (simp_all add: x_switched_on_def model)

subsection \<open>Requests on an unknown output\<close>

text \<open>
  C8. For every state and every output id that is not in the registry, \<open>output_on_off\<close>
  returns 1 and leaves the whole state as it was: no runtime attribute of any output
  changes, the trace gains no event (no hardware switch), and no conditional is checked.
\<close>

theorem unknown_output_refused:
  "get_output s output_id = None \<Longrightarrow>
     output_on_off depth db now s output_id state duration min_off duty_cycle
       trigger_conditionals = (Inr (Some 1), s)"
  by (simp add: output_on_off_cascade output_on_off_body_def)

theorem unknown_output_refused_witness:
  "get_output (two_outputs ''wired'') 3 = None \<and>
   output_on_off 5 (no_rules 10) 100 (two_outputs ''wired'') 3 ''on'' 30 0 0 True
     = (Inr (Some 1), two_outputs ''wired'')"
proof -
  have h: "get_output (two_outputs ''wired'') 3 = None"
    by (simp add: model)
  from unknown_output_refused [OF h] show ?thesis
    using h by simp
qed

subsection \<open>Repeating an untimed on-request\<close>



subsection \<open>The e-mail throttle\<close>

lemma email_suppressed:
  assumes "email_count s \<ge> smtp_max_count s" and "now < smtp_wait_time s"
  shows "email_action now a s
           = s\<lparr>allowed_to_send_notice := False, email_count := email_count s + 1\<rparr>"
  using assms by (simp add: email_action_def)

lemma email_sent_same_window:
  assumes "\<not> (email_count s \<ge> smtp_max_count s \<and> now < smtp_wait_time s)"
    and "now \<le> smtp_wait_time s"
  shows "email_action now a s
           = emit (Send_email (do_action_string a))
               (s\<lparr>allowed_to_send_notice := True, email_count := email_count s + 1\<rparr>)"
  using assms by (auto simp add: email_action_def emit_def)

lemma email_sent_new_window:
  assumes "now > smtp_wait_time s"
  shows "email_action now a s
           = emit (Send_email (do_action_string a))
               (s\<lparr>email_count := 1, smtp_wait_time := now + 3600,
                   allowed_to_send_notice := True\<rparr>)"
  using assms by (auto simp add: email_action_def emit_def)

text \<open>
  C4 (as amended). An e-mail action of a cascade runs the throttle: when \<open>email_count\<close> has
  reached \<open>smtp_max_count\<close> and \<open>now\<close> is before \<open>smtp_wait_time\<close>, nothing is sent and
  \<open>email_count\<close> is still incremented; otherwise the e-mail is sent and \<open>email_count\<close> is
  incremented, after being reset to 0 with a new window of 3600 seconds when \<open>now\<close> is past
  \<open>smtp_wait_time\<close>.
\<close>

theorem email_throttle:
  assumes "do_action a = ''email''"
  shows
    "run_action switch now output_id state on_duration duty_cycle a s
       = (Inr (), email_action now a s) \<and>
     (email_count s \<ge> smtp_max_count s \<and> now < smtp_wait_time s \<longrightarrow>
        email_action now a s
          = s\<lparr>allowed_to_send_notice := False, email_count := email_count s + 1\<rparr>) \<and>
     (\<not> (email_count s \<ge> smtp_max_count s \<and> now < smtp_wait_time s) \<and>
      now \<le> smtp_wait_time s \<longrightarrow>
        email_action now a s
          = emit (Send_email (do_action_string a))
              (s\<lparr>allowed_to_send_notice := True, email_count := email_count s + 1\<rparr>)) \<and>
     (now > smtp_wait_time s \<longrightarrow>
        email_action now a s
          = emit (Send_email (do_action_string a))
              (s\<lparr>email_count := 1, smtp_wait_time := now + 3600,
                  allowed_to_send_notice := True\<rparr>))"
  apply (intro conjI impI)
  subgoal using assms by (simp add: run_action_def)
  subgoal by (rule email_suppressed) simp_all
  subgoal by (rule email_sent_same_window) simp_all
  subgoal by (rule email_sent_new_window)
  done

text \<open>
  The claim as stated fails: with the count at the maximum inside the window, the e-mail
  is suppressed (the trace is unchanged) and the count is incremented all the same.
\<close>

theorem email_throttle_counterexample:
  "email_count throttled \<ge> smtp_max_count throttled \<and> 100 < smtp_wait_time throttled \<and>
   events (email_action 100 (email_to ''a@b'') throttled) = events throttled \<and>
   email_count (email_action 100 (email_to ''a@b'') throttled) \<noteq> email_count throttled"
  by (simp add: throttled_def email_to_def idle_controller_def email_action_def)

theorem email_throttle_witness:
  "do_action (email_to ''a@b'') = ''email'' \<and>
   email_count throttled \<ge> smtp_max_count throttled \<and> 100 < smtp_wait_time throttled \<and>
   run_action (cascade 0 (no_rules 10) 100) 100 1 ''on'' 0 0 (email_to ''a@b'') throttled
     = (Inr (), throttled\<lparr>allowed_to_send_notice := False, email_count := 3\<rparr>) \<and>
   \<not> (email_count (idle_controller []) \<ge> smtp_max_count (idle_controller [])
        \<and> 100 < smtp_wait_time (idle_controller [])) \<and>
   100 \<le> smtp_wait_time (idle_controller []) \<and>
   email_action 100 (email_to ''a@b'') (idle_controller [])
     = emit (Send_email ''a@b'') ((idle_controller [])\<lparr>email_count := 1\<rparr>) \<and>
   4000 > smtp_wait_time throttled \<and>
   email_action 4000 (email_to ''a@b'') throttled
     = emit (Send_email ''a@b'') (throttled\<lparr>email_count := 1, smtp_wait_time := 7600\<rparr>)"
proof -
  have a: "do_action (email_to ''a@b'') = ''email''" by (simp add: email_to_def)
  have b: "email_count throttled \<ge> smtp_max_count throttled \<and> 100 < smtp_wait_time throttled"
    by (simp add: throttled_def idle_controller_def)
  have c: "\<not> (email_count (idle_controller []) \<ge> smtp_max_count (idle_controller [])
        \<and> 100 < smtp_wait_time (idle_controller [])) \<and>
     100 \<le> smtp_wait_time (idle_controller [])"
    by (simp add: idle_controller_def)
  have d: "4000 > smtp_wait_time throttled" by (simp add: throttled_def idle_controller_def)
  note t1 = email_throttle [of "email_to ''a@b''" "cascade 0 (no_rules 10) 100" 100 1 "''on''" 0 0 throttled, OF a]
  note t2 = email_throttle [of "email_to ''a@b''" "cascade 0 (no_rules 10) 100" 100 1 "''on''" 0 0 "idle_controller []", OF a]
  note t3 = email_throttle [of "email_to ''a@b''" "cascade 0 (no_rules 10) 4000" 4000 1 "''on''" 0 0 throttled, OF a]
  have r1: "run_action (cascade 0 (no_rules 10) 100) 100 1 ''on'' 0 0 (email_to ''a@b'') throttled
     = (Inr (), throttled\<lparr>allowed_to_send_notice := False, email_count := 3\<rparr>)"
    using t1 b by (simp add: throttled_def)
  have r2: "email_action 100 (email_to ''a@b'') (idle_controller [])
     = emit (Send_email ''a@b'') ((idle_controller [])\<lparr>email_count := 1\<rparr>)"
    using t2 c by (simp add: email_to_def idle_controller_def)
  have r3: "email_action 4000 (email_to ''a@b'') throttled
     = emit (Send_email ''a@b'') (throttled\<lparr>email_count := 1, smtp_wait_time := 7600\<rparr>)"
    using t3 d by (simp add: email_to_def idle_controller_def throttled_def)
  show ?thesis using a b c d r1 r2 r3 by simp
qed

subsection \<open>Reading an output after an update\<close>

lemma map_of_set_output:
  "map_of (map (\<lambda>(k, v). if k = i then (k, f v) else (k, v)) xs) j
     = (if j = i then map_option f (map_of xs j) else map_of xs j)"
  by (induction xs) auto

lemma get_output_set_output:
  "get_output (set_output i f s) j
     = (if j = i then map_option f (get_output s j) else get_output s j)"
  by (simp add: get_output_def set_output_def map_of_set_output)

lemma get_output_emit [simp]: "get_output (emit e s) j = get_output s j"
  by (simp add: get_output_def emit_def)

lemma events_set_output [simp]: "events (set_output i f s) = events s"
  by (simp add: set_output_def)

subsection \<open>The duty cycle of a PWM output\<close>

lemma limited_range:
  "0 \<le> (if (if (c::int) > 255 then 255 else c) < 0 then 0 else (if c > 255 then 255 else c)) \<and>
   (if (if c > 255 then 255 else c) < 0 then 0 else (if c > 255 then 255 else c)) \<le> 255"
  by simp

lemma calc_duty_cycle_range: "0 \<le> calc_duty_cycle d \<and> calc_duty_cycle d \<le> 255"
  unfolding calc_duty_cycle_def Let_def by (rule limited_range)

lemma calc_duty_cycle_min: "calc_duty_cycle d = min 255 \<lfloor>\<bar>d\<bar> / 100 * 255\<rfloor>"
proof -
  have "0 \<le> \<bar>d\<bar> / 100 * 255" by simp
  then have "0 \<le> \<lfloor>\<bar>d\<bar> / 100 * 255\<rfloor>" by (simp only: zero_le_floor)
  then show ?thesis
    unfolding calc_duty_cycle_def Let_def min_def by (simp only: split: if_splits) linarith
qed

lemma calc_duty_cycle_full: "\<bar>d\<bar> \<ge> 100 \<Longrightarrow> calc_duty_cycle d = 255"
proof -
  assume "\<bar>d\<bar> \<ge> 100"
  then have "255 \<le> \<bar>d\<bar> / 100 * 255" by simp
  then have "255 \<le> \<lfloor>\<bar>d\<bar> / 100 * 255\<rfloor>" by (simp add: le_floor_iff)
  then show ?thesis by (simp add: calc_duty_cycle_min)
qed

text \<open>
  C9 (as amended). For a PWM output with a pin and a handle, \<open>output_switch\<close> translates the
  magnitude of the duty cycle: with pigpio\_any into \<open>int(|duty_cycle| / 100 * 255)\<close> limited
  to 0..255, so that every magnitude of 100 or more gives 255; with pigpio\_hardware, for a
  magnitude of at most 100, into \<open>|duty_cycle| * 10000\<close>, which lies in 0..1000000. A duty
  cycle of zero sends the native value 0, and the output keeps its handle \<open>pwm_output\<close>.
\<close>

theorem pwm_duty_cycle_translated:
  assumes "get_output s output_id = Some out"
    and "output_type out = ''pwm''"
    and "pwm_output out"
    and "output_pin out = Some pin"
  shows
    "(pwm_library out = ''pigpio_any'' \<longrightarrow>
        output_switch s output_id ''on'' duty_cycle
          = (Inr (),
             set_output output_id (\<lambda>r. r\<lparr>pwm_state := Some \<bar>duty_cycle\<bar>\<rparr>)
               (emit (Set_PWM_dutycycle pin (calc_duty_cycle duty_cycle))
                 (emit (Set_PWM_frequency pin (pwm_hertz out)) s)))) \<and>
     calc_duty_cycle duty_cycle = min 255 \<lfloor>\<bar>duty_cycle\<bar> / 100 * 255\<rfloor> \<and>
     0 \<le> calc_duty_cycle duty_cycle \<and> calc_duty_cycle duty_cycle \<le> 255 \<and>
     (\<bar>duty_cycle\<bar> \<ge> 100 \<longrightarrow> calc_duty_cycle duty_cycle = 255) \<and>
     (pwm_library out = ''pigpio_hardware'' \<and> \<bar>duty_cycle\<bar> \<le> 100 \<longrightarrow>
        output_switch s output_id ''on'' duty_cycle
          = (Inr (),
             set_output output_id (\<lambda>r. r\<lparr>pwm_state := Some \<bar>duty_cycle\<bar>\<rparr>)
               (emit (Hardware_PWM pin (pwm_hertz out) (\<bar>duty_cycle\<bar> * 10000)) s)) \<and>
        0 \<le> \<bar>duty_cycle\<bar> * 10000 \<and> \<bar>duty_cycle\<bar> * 10000 \<le> 1000000) \<and>
     (pwm_library out = ''pigpio_any'' \<longrightarrow>
        events (snd (output_switch s output_id ''on'' 0))
          = events s @ [Set_PWM_frequency pin (pwm_hertz out), Set_PWM_dutycycle pin 0]) \<and>
     (pwm_library out = ''pigpio_hardware'' \<longrightarrow>
        events (snd (output_switch s output_id ''on'' 0))
          = events s @ [Hardware_PWM pin (pwm_hertz out) 0]) \<and>
     get_output (snd (output_switch s output_id ''on'' 0)) output_id
       = Some (out\<lparr>pwm_state := Some 0\<rparr>) \<and>
     pwm_output (out\<lparr>pwm_state := Some 0\<rparr>)"
  apply (intro conjI impI)
  subgoal using assms by (simp add: output_switch_def)
  subgoal by (rule calc_duty_cycle_min)
  subgoal by (simp add: calc_duty_cycle_range)
  subgoal by (simp add: calc_duty_cycle_range)
  subgoal by (rule calc_duty_cycle_full)
  subgoal using assms by (simp add: output_switch_def)
  subgoal by simp
  subgoal by simp
  subgoal using assms by (simp add: output_switch_def emit_def calc_duty_cycle_def)
  subgoal using assms by (simp add: output_switch_def emit_def)
  subgoal using assms by (simp add: output_switch_def get_output_set_output)
  subgoal using assms by simp
  done

text \<open>
  The claim as stated fails: with pigpio\_hardware a duty cycle of 150 is sent as 1500000,
  not as the 1000000 of 100 percent; and a duty cycle of -50 is sent with its magnitude
  (127 of 255 with pigpio\_any), not as the 0 that clamping to 0..100 gives.
\<close>

theorem pwm_duty_cycle_translated_counterexample:
  "events (snd (output_switch (pwm_example ''pigpio_hardware'') 1 ''on'' 150))
     = [Hardware_PWM 18 22000 1500000] \<and>
   spec_clamped_duty_cycle 150 * 10000 = 1000000 \<and>
   events (snd (output_switch (pwm_example ''pigpio_any'') 1 ''on'' (- 50)))
     = [Set_PWM_frequency 18 22000, Set_PWM_dutycycle 18 127] \<and>
   calc_duty_cycle (spec_clamped_duty_cycle (- 50)) = 0"
  by (simp add: pwm_example_def spec_clamped_duty_cycle_def idle_controller_def
      idle_output_def output_switch_def get_output_def set_output_def emit_def
      calc_duty_cycle_def)

theorem pwm_duty_cycle_translated_witness:
  "get_output (pwm_example ''pigpio_any'') 1
     = Some ((idle_output ''P'' ''pwm'' (Some 18) 0)\<lparr>pwm_library := ''pigpio_any''\<rparr>) \<and>
   output_type ((idle_output ''P'' ''pwm'' (Some 18) 0)\<lparr>pwm_library := ''pigpio_any''\<rparr>) = ''pwm'' \<and>
   pwm_output ((idle_output ''P'' ''pwm'' (Some 18) 0)\<lparr>pwm_library := ''pigpio_any''\<rparr>) \<and>
   output_pin ((idle_output ''P'' ''pwm'' (Some 18) 0)\<lparr>pwm_library := ''pigpio_any''\<rparr>) = Some 18 \<and>
   events (snd (output_switch (pwm_example ''pigpio_any'') 1 ''on'' 250))
     = [Set_PWM_frequency 18 22000, Set_PWM_dutycycle 18 255] \<and>
   events (snd (output_switch (pwm_example ''pigpio_any'') 1 ''on'' 0))
     = [Set_PWM_frequency 18 22000, Set_PWM_dutycycle 18 0]"
proof -
  let ?out = "(idle_output ''P'' ''pwm'' (Some 18) 0)\<lparr>pwm_library := ''pigpio_any''\<rparr>"
  have h1: "get_output (pwm_example ''pigpio_any'') 1 = Some ?out"
    by (simp add: pwm_example_def idle_controller_def get_output_def)
  have h2: "output_type ?out = ''pwm''" by (simp add: idle_output_def)
  have h3: "pwm_output ?out" by (simp add: idle_output_def)
  have h4: "output_pin ?out = Some 18" by (simp add: idle_output_def)
  have l: "pwm_library ?out = ''pigpio_any''" "pwm_hertz ?out = 22000"
    by (simp_all add: idle_output_def)
  have e: "events (pwm_example ''pigpio_any'') = []"
    by (simp add: pwm_example_def idle_controller_def)
  note t = pwm_duty_cycle_translated [OF h1 h2 h3 h4, of 250]
  from t l have "calc_duty_cycle 250 = 255" by simp
  moreover from t l have "output_switch (pwm_example ''pigpio_any'') 1 ''on'' 250
          = (Inr (),
             set_output 1 (\<lambda>r. r\<lparr>pwm_state := Some \<bar>250\<bar>\<rparr>)
               (emit (Set_PWM_dutycycle 18 (calc_duty_cycle 250))
                 (emit (Set_PWM_frequency 18 22000) (pwm_example ''pigpio_any''))))"
    by simp
  ultimately have a: "events (snd (output_switch (pwm_example ''pigpio_any'') 1 ''on'' 250))
     = [Set_PWM_frequency 18 22000, Set_PWM_dutycycle 18 255]"
    using e by (simp add: emit_def)
  from t l e have b: "events (snd (output_switch (pwm_example ''pigpio_any'') 1 ''on'' 0))
     = [Set_PWM_frequency 18 22000, Set_PWM_dutycycle 18 0]"
    by simp
  show ?thesis using h1 h2 h3 h4 a b by simp
qed

subsection \<open>The return value of output\_on\_off\<close>

lemma registered_nonempty: "get_output s output_id = Some out \<Longrightarrow> outputs s \<noteq> []"
  by (auto simp add: get_output_def)

lemma output_on_returns_0:
  assumes "get_output s output_id = Some out"
    and "fst (output_on db now s output_id out duration min_off duty_cycle) = Return (Some 0)"
  shows "duration \<noteq> 0 \<and>
         output_type out \<in> set [''command'', ''wired'', ''wireless_433MHz_pi_switch''] \<and>
         is_on s output_id \<and> output_on_duration out"
  using assms registered_nonempty [OF assms(1)]
  by (auto simp add: output_on_def switched_def Let_def split: if_splits prod.splits sum.splits)

lemma output_off_returns_0:
  "fst (output_off now s output_id out duration duty_cycle) \<noteq> Return (Some 0)"
  by (auto simp add: output_off_def Let_def split: if_splits prod.splits sum.splits option.splits)

lemma body_returns_0:
  assumes "fst (output_on_off_body switch db now s output_id state duration min_off
                  duty_cycle trig) = Inr (Some 0)"
  shows "\<exists>out. get_output s output_id = Some out \<and> state = ''on'' \<and> duration \<noteq> 0 \<and>
           output_type out \<in> set [''command'', ''wired'', ''wireless_433MHz_pi_switch''] \<and>
           is_on s output_id \<and> output_on_duration out"
proof (cases "get_output s output_id")
  case None
  with assms show ?thesis by (simp add: output_on_off_body_def)
next
  case (Some out)
  show ?thesis
  proof (cases "state = ''on''")
    case True
    with assms Some
    have "fst (output_on db now s output_id out duration min_off duty_cycle) = Return (Some 0)"
      by (auto simp add: output_on_off_body_def split: prod.splits flow.splits if_splits sum.splits)
    from output_on_returns_0 [OF Some this] Some True show ?thesis by simp
  next
    case False
    with assms Some output_off_returns_0 [of now s output_id out duration duty_cycle]
    show ?thesis
      by (auto simp add: output_on_off_body_def split: prod.splits flow.splits if_splits sum.splits)
  qed
qed

text \<open>
  C7. \<open>output_on_off\<close> returns 0 on one path only: an on-request with a duration for an
  output of type command, wired or wireless that is on with a duration running. Every other
  request that is carried out falls off the end of the function and returns None: switching
  the idle command output X on, switching it off again, and setting a PWM output to 50
  percent all return None, although each takes effect.
\<close>

theorem success_returns_none:
  "(fst (output_on_off depth db now s output_id state duration min_off duty_cycle trig)
      = Inr (Some 0) \<longrightarrow>
      (\<exists>out. get_output s output_id = Some out \<and> state = ''on'' \<and> duration \<noteq> 0 \<and>
         output_type out \<in> set [''command'', ''wired'', ''wireless_433MHz_pi_switch''] \<and>
         is_on s output_id \<and> output_on_duration out)) \<and>
   fst (output_on_off 0 (no_rules 10) 100 (two_outputs ''command'') 1 ''on'' 0 0 0 True)
     = Inr None \<and>
   is_on (x_switched_on ''command'') 1 \<and>
   fst (output_on_off 0 (no_rules 10) 300 (x_switched_on ''command'') 1 ''off'' 0 0 0 True)
     = Inr None \<and>
   \<not> is_on (x_switched_off ''command'') 1 \<and>
   fst (output_on_off 0 (no_rules 10) 100 (pwm_example ''pigpio_any'') 1 ''on'' 0 0 50 True)
     = Inr None \<and>
   events (snd (output_on_off 0 (no_rules 10) 100 (pwm_example ''pigpio_any'') 1 ''on'' 0 0 50 True))
     = [Set_PWM_frequency 18 22000, Set_PWM_dutycycle 18 127,
        Write_influxdb ''P'' ''duty_cycle'' 50 None]"
  apply (intro conjI impI)
  subgoal by (rule body_returns_0) (simp add: output_on_off_cascade)
  subgoal by (simp add: model)
  subgoal by (rule x_switched_on_command)
  subgoal by (simp add: x_switched_on_def model)
  subgoal by (simp add: x_switched_off_def x_switched_on_def model)
  subgoal by (simp add: pwm_example_def model)
  subgoal by (simp add: pwm_example_def model calc_duty_cycle_def)
  done

theorem success_returns_none_witness:
  "fst (output_on_off 0 (no_rules 20) 110 x_timed_on 1 ''on'' 60 0 0 True) = Inr (Some 0) \<and>
   (\<exists>out. get_output x_timed_on 1 = Some out \<and> output_on_duration out) \<and>
   is_on x_timed_on 1"
proof -
  have h: "fst (output_on_off 0 (no_rules 20) 110 x_timed_on 1 ''on'' 60 0 0 True) = Inr (Some 0)"
    by (simp add: x_timed_on_def model)
  from success_returns_none [THEN conjunct1, rule_format, OF h]
  show ?thesis using h by blast
qed

subsection \<open>Basic facts about the state\<close>

lemma outputs_emit [simp]: "outputs (emit e s) = outputs s"
  by (simp add: emit_def)

lemma outputs_gpio_output [simp]: "outputs (gpio_output p l s) = outputs s"
  by (simp add: gpio_output_def)

lemma unwatched_no_match:
  assumes "\<forall>c \<in> set (conditionals db). if_relay_id c = output_id \<longrightarrow> \<not> is_activated c"
  shows "matching_conditionals db s output_id on_duration = []"
  using assms by (auto simp add: matching_conditionals_def Let_def filter_empty_conv)

lemma unwatched_check:
  assumes "\<forall>c \<in> set (conditionals db). if_relay_id c = output_id \<longrightarrow> \<not> is_activated c"
  shows "check_conditionals switch db now s output_id state on_duration duty_cycle = (Inr (), s)"
  by (simp add: check_conditionals_def unwatched_no_match [OF assms])

lemma gpio_emit [simp]: "gpio (emit e s) = gpio s"
  by (simp add: emit_def)

lemma gpio_set_output [simp]: "gpio (set_output i f s) = gpio s"
  by (simp add: set_output_def)

lemma gpio_gpio_output [simp]: "gpio (gpio_output p l s) = (gpio s)(p := l)"
  by (simp add: gpio_output_def emit_def)

lemma get_output_gpio_output [simp]: "get_output (gpio_output p l s) j = get_output s j"
  by (simp add: get_output_def)

lemma events_emit [simp]: "events (emit e s) = events s @ [e]"
  by (simp add: emit_def)

lemma events_gpio_output [simp]:
  "events (gpio_output p l s) = events s @ [GPIO_output p l]"
  by (simp add: gpio_output_def emit_def)

subsection \<open>The budget as an invariant\<close>

lemma foldl_load:
  "foldl (\<lambda>amp_load (i, out). if c i then amp_load + output_amps out else amp_load) z xs
     = z + sum_list (map (\<lambda>(i, out). if c i then output_amps out else 0) xs)"
  by (induction xs arbitrary: z) (auto simp add: algebra_simps)

lemma load_static:
  "current_amp_load s
     = sum_list (map (\<lambda>(i, type, pin, amps, trigger). if is_on s i then amps else 0) (static s))"
  unfolding current_amp_load_def foldl_load static_def
  by (simp add: comp_def case_prod_unfold cong: if_cong)

lemma sum_list_le:
  "(\<And>x. x \<in> set xs \<Longrightarrow> f x \<le> (g x :: real)) \<Longrightarrow> sum_list (map f xs) \<le> sum_list (map g xs)"
  by (induction xs) (auto intro: add_mono)

lemma sum_list_bump:
  assumes "distinct (map key xs)" and "0 \<le> (e::real)"
    and "\<And>x. x \<in> set xs \<Longrightarrow> key x \<noteq> i \<Longrightarrow> f x \<le> g x"
    and "\<And>x. x \<in> set xs \<Longrightarrow> key x = i \<Longrightarrow> f x \<le> g x + e"
  shows "sum_list (map f xs) \<le> sum_list (map g xs) + e"
  using assms
proof (induction xs)
  case Nil
  then show ?case by simp
next
  case (Cons x xs)
  show ?case
  proof (cases "key x = i")
    case True
    have "\<And>y. y \<in> set xs \<Longrightarrow> key y \<noteq> i"
      using Cons.prems(1) True by (auto simp add: image_iff)
    then have "sum_list (map f xs) \<le> sum_list (map g xs)"
      using Cons.prems(3) by (intro sum_list_le) auto
    moreover have "f x \<le> g x + e" using Cons.prems(4) True by simp
    ultimately show ?thesis by simp
  next
    case False
    have "sum_list (map f xs) \<le> sum_list (map g xs) + e"
      using Cons.prems by (intro Cons.IH) auto
    moreover have "f x \<le> g x" using Cons.prems(3) False by simp
    ultimately show ?thesis by simp
  qed
qed

lemma static_entry:
  "get_output s i = Some out \<Longrightarrow>
     (i, output_type out, output_pin out, output_amps out, output_trigger out) \<in> set (static s)"
  by (force simp add: get_output_def static_def dest: map_of_SomeD)

lemma static_lookup:
  assumes "distinct (map fst (static s))" and "(i, t, p, a, g) \<in> set (static s)"
  shows "\<exists>out. get_output s i = Some out \<and> output_type out = t \<and> output_pin out = p \<and>
           output_amps out = a \<and> output_trigger out = g"
proof -
  from assms(2) obtain out where m: "(i, out) \<in> set (outputs s)"
    and e: "output_type out = t" "output_pin out = p" "output_amps out = a"
      "output_trigger out = g"
    by (auto simp add: static_def)
  have "map fst (static s) = map fst (outputs s)"
    by (simp add: static_def comp_def case_prod_unfold)
  with assms(1) have "distinct (map fst (outputs s))" by simp
  with m have "map_of (outputs s) i = Some out" by simp
  with e show ?thesis by (simp add: get_output_def)
qed

text \<open>The load after a step that can only switch output i on.\<close>

lemma load_step:
  assumes cfg: "budget_config s" and st: "static s' = static s"
    and out: "get_output s i = Some out"
    and others: "\<And>j. j \<noteq> i \<Longrightarrow> is_on s' j \<Longrightarrow> is_on s j"
  shows "current_amp_load s'
           \<le> current_amp_load s + (if is_on s' i \<and> \<not> is_on s i then output_amps out else 0)"
proof -
  let ?e = "if is_on s' i \<and> \<not> is_on s i then output_amps out else 0"
  have d: "distinct (map fst (static s))" using cfg by (simp add: budget_config_def)
  have nonneg: "\<And>j t p a g. (j, t, p, a, g) \<in> set (static s) \<Longrightarrow> 0 \<le> a"
    using cfg by (auto simp add: budget_config_def)
  have e0: "0 \<le> ?e" using nonneg [OF static_entry [OF out]] by simp
  have "sum_list (map (\<lambda>(j, t, p, a, g). if is_on s' j then a else 0) (static s))
          \<le> sum_list (map (\<lambda>(j, t, p, a, g). if is_on s j then a else 0) (static s)) + ?e"
  proof (rule sum_list_bump [where key = fst and i = i, OF d e0])
    fix x assume x: "x \<in> set (static s)" and k: "fst x \<noteq> i"
    obtain j t p a g where xe: "x = (j, t, p, a, g)" by (cases x)
    with others [of j] k nonneg [of j t p a g] x
    show "(case x of (j, t, p, a, g) \<Rightarrow> if is_on s' j then a else 0)
            \<le> (case x of (j, t, p, a, g) \<Rightarrow> if is_on s j then a else 0)"
      by auto
  next
    fix x assume x: "x \<in> set (static s)" and k: "fst x = i"
    obtain j t p a g where xe: "x = (j, t, p, a, g)" by (cases x)
    from static_lookup [OF d] x xe k out have "a = output_amps out" by fastforce
    with xe k nonneg [of j t p a g] x
    show "(case x of (j, t, p, a, g) \<Rightarrow> if is_on s' j then a else 0)
            \<le> (case x of (j, t, p, a, g) \<Rightarrow> if is_on s j then a else 0) + ?e"
      by auto
  qed
  then show ?thesis using st by (simp add: load_static)
qed

lemma static_emit [simp]: "static (emit e s) = static s"
  by (simp add: static_def)

lemma static_gpio_output [simp]: "static (gpio_output p l s) = static s"
  by (simp add: static_def)

lemma static_set_output:
  assumes "\<And>r. output_type (f r) = output_type r \<and> output_pin (f r) = output_pin r \<and>
                output_amps (f r) = output_amps r \<and> output_trigger (f r) = output_trigger r"
  shows "static (set_output i f s) = static s"
  using assms by (auto simp add: static_def set_output_def)

lemma budget_config_static: "static s' = static s \<Longrightarrow> budget_config s' = budget_config s"
  by (simp add: budget_config_def)

lemma is_on_emit [simp]: "is_on (emit e s) j = is_on s j"
  by (simp add: is_on_def split: option.splits)

lemma is_on_set_output:
  "is_on (set_output i f s) j
     = (if j = i
        then (case get_output s i of Some out \<Rightarrow> output_is_on (gpio s) (f out) | None \<Rightarrow> False)
        else is_on s j)"
  by (simp add: is_on_def get_output_set_output split: option.splits)


lemma quiet_refl [simp]: "quiet i s s"
  by (simp add: quiet_def)

lemma quiet_trans: "quiet i s s1 \<Longrightarrow> quiet i s1 s2 \<Longrightarrow> quiet i s s2"
  by (simp add: quiet_def)

lemma quiet_emit: "quiet i s s1 \<Longrightarrow> quiet i s (emit e s1)"
  by (simp add: quiet_def)

lemma quiet_set_output:
  assumes "\<And>r. output_type (f r) = output_type r \<and> output_pin (f r) = output_pin r \<and>
                output_amps (f r) = output_amps r \<and> output_trigger (f r) = output_trigger r"
    and "quiet i s s1"
  shows "quiet i s (set_output i f s1)"
  using assms(2) static_set_output [of f i s1, OF assms(1)]
  by (simp add: quiet_def is_on_set_output)

lemma wired_pins_distinct:
  assumes "budget_config s"
    and "(i, ''wired'', Some p, a, g) \<in> set (static s)"
    and "(j, ''wired'', Some p, a', g') \<in> set (static s)"
  shows "i = j"
proof -
  from assms(1) have c:
    "\<forall>(i, type, pin, amps, trigger) \<in> set (static s).
        \<forall>(j, type', pin', amps', trigger') \<in> set (static s).
          type = ''wired'' \<and> type' = ''wired'' \<and> pin \<noteq> None \<and> pin = pin' \<longrightarrow> i = j"
    unfolding budget_config_def by (elim conjE)
  from bspec [OF bspec [OF c assms(2), simplified] assms(3)] show ?thesis by simp
qed

lemma wired_other:
  assumes cfg: "budget_config s" and out: "get_output s i = Some out"
    and type: "output_type out = ''wired''" and pin: "output_pin out = Some p"
    and j: "j \<noteq> i"
  shows "is_on (gpio_output p l s) j = is_on s j"
proof (cases "get_output s j")
  case None
  then show ?thesis by (simp add: is_on_def)
next
  case (Some o')
  have ne: "output_type o' = ''wired'' \<Longrightarrow> output_pin o' \<noteq> Some p"
  proof
    assume w: "output_type o' = ''wired''" and q: "output_pin o' = Some p"
    have "i = j"
      using wired_pins_distinct [OF cfg] static_entry [OF out] static_entry [OF Some]
        type pin w q by simp
    with j show False by simp
  qed
  show ?thesis
  proof (cases "output_type o' = ''wired''")
    case True
    with ne obtain "output_pin o' \<noteq> Some p" by simp
    with Some True show ?thesis
      by (cases "output_pin o'") (simp_all add: is_on_def output_is_on_def)
  next
    case False
    with Some show ?thesis by (simp add: is_on_def output_is_on_def)
  qed
qed

lemma quiet_pwm_state: "quiet i s s1 \<Longrightarrow> quiet i s (set_output i (\<lambda>r. r\<lparr>pwm_state := v\<rparr>) s1)"
  by (rule quiet_set_output) simp_all

lemma quiet_switch:
  assumes cfg: "budget_config s" and out: "get_output s i = Some out"
  shows "quiet i s (snd (output_switch s i state duty_cycle))"
proof -
  consider (wired) "output_type out = ''wired''"
    | (wireless) "output_type out = ''wireless_433MHz_pi_switch''"
    | (command) "output_type out = ''command''"
    | (pwm) "output_type out = ''pwm''"
    | (other) "output_type out \<notin> set [''wired'', ''wireless_433MHz_pi_switch'', ''command'', ''pwm'']"
    by auto
  then show ?thesis
  proof cases
    case wired
    show ?thesis
    proof (cases "output_pin out")
      case None
      with wired out show ?thesis by (simp add: output_switch_def)
    next
      case (Some p)
      have "\<And>l. quiet i s (gpio_output p l s)"
        using wired_other [OF cfg out wired Some] by (simp add: quiet_def)
      with wired out Some show ?thesis by (simp add: output_switch_def)
    qed
  next
    case wireless
    with out show ?thesis by (simp add: output_switch_def quiet_emit)
  next
    case command
    with out show ?thesis by (simp add: output_switch_def quiet_emit)
  next
    case pwm
    show ?thesis
    proof (cases "output_pin out")
      case None
      with pwm out show ?thesis by (simp add: output_switch_def quiet_pwm_state)
    next
      case (Some p)
      with pwm out show ?thesis
        by (simp add: output_switch_def quiet_pwm_state quiet_emit)
    qed
  next
    case other
    with out show ?thesis by (simp add: output_switch_def)
  qed
qed

lemma quiet_switch_after:
  assumes cfg: "budget_config s" and out: "get_output s i = Some out"
    and pres: "\<And>r. output_type (f r) = output_type r \<and> output_pin (f r) = output_pin r \<and>
                output_amps (f r) = output_amps r \<and> output_trigger (f r) = output_trigger r"
  shows "quiet i s (snd (output_switch (set_output i f s) i state duty_cycle))"
proof -
  let ?s = "set_output i f s"
  have "budget_config ?s"
    using cfg budget_config_static [OF static_set_output [of f i s, OF pres]] by simp
  moreover have "get_output ?s i = Some (f out)"
    using out by (simp add: get_output_set_output)
  ultimately have "quiet i ?s (snd (output_switch ?s i state duty_cycle))"
    by (rule quiet_switch)
  moreover have "quiet i s ?s" by (rule quiet_set_output [OF pres]) simp
  ultimately show ?thesis by (rule quiet_trans [rotated])
qed

lemma quiet_off:
  assumes cfg: "budget_config s" and out: "get_output s i = Some out"
  shows "quiet i s (snd (output_off now s i out duration duty_cycle))"
proof -
  obtain r s1 where sw: "output_switch s i ''off'' 0 = (r, s1)"
    by (cases "output_switch s i ''off'' 0")
  have q: "quiet i s s1" using quiet_switch [OF cfg out, of "''off''" 0] sw by simp
  have q1: "\<And>v. quiet i s (set_output i (\<lambda>r. r\<lparr>pwm_time_turned_on := v\<rparr>) s1)"
    by (rule quiet_set_output) (simp_all add: q)
  have q2: "\<And>v w. quiet i s (set_output i (\<lambda>r. r\<lparr>output_on_duration := v, output_on_until := w\<rparr>) s1)"
    by (rule quiet_set_output) (simp_all add: q)
  have q3: "\<And>v. quiet i s (set_output i (\<lambda>r. r\<lparr>output_time_turned_on := v\<rparr>) s1)"
    by (rule quiet_set_output) (simp_all add: q)
  have q4: "\<And>u v w. quiet i s (set_output i (\<lambda>r. r\<lparr>output_time_turned_on := u\<rparr>)
                (set_output i (\<lambda>r. r\<lparr>output_on_duration := v, output_on_until := w\<rparr>) s1))"
    by (rule quiet_set_output) (simp_all add: q2)
  show ?thesis
    using sw q q1 q2 q3 q4
    by (cases r) (simp_all add: output_off_def Let_def quiet_emit split: option.splits)
qed

lemma pwm_state_same: "r\<lparr>pwm_state := pwm_state r\<rparr> = r"
  by simp

lemma switch_off_view:
  assumes out: "get_output s i = Some out" and sw: "output_switch s i ''off'' dc = (r, s1)"
  shows "\<exists>o1. get_output s1 i = Some o1 \<and> o1\<lparr>pwm_state := None\<rparr> = out\<lparr>pwm_state := None\<rparr>"
    and "r \<noteq> Inr () \<Longrightarrow> s1 = s"
    and "r = Inr () \<Longrightarrow> output_type out = ''wired'' \<Longrightarrow>
           \<exists>p. output_pin out = Some p \<and> gpio s1 p = (\<not> output_trigger out)"
    and "output_type out \<noteq> ''wired'' \<Longrightarrow> gpio s1 = gpio s"
proof -
  note same = out
  consider (wired) "output_type out = ''wired''"
    | (wireless) "output_type out = ''wireless_433MHz_pi_switch''"
    | (command) "output_type out = ''command''"
    | (pwm) "output_type out = ''pwm''"
    | (other) "output_type out \<notin> set [''wired'', ''wireless_433MHz_pi_switch'', ''command'', ''pwm'']"
    by auto
  then have "(\<exists>o1. get_output s1 i = Some o1 \<and> o1\<lparr>pwm_state := None\<rparr> = out\<lparr>pwm_state := None\<rparr>) \<and>
    (r \<noteq> Inr () \<longrightarrow> s1 = s) \<and>
    (r = Inr () \<longrightarrow> output_type out = ''wired'' \<longrightarrow>
           (\<exists>p. output_pin out = Some p \<and> gpio s1 p = (\<not> output_trigger out))) \<and>
    (output_type out \<noteq> ''wired'' \<longrightarrow> gpio s1 = gpio s)"
  proof cases
    case wired
    show ?thesis
    proof (cases "output_pin out")
      case None
      with wired out sw same show ?thesis by (auto simp add: output_switch_def)
    next
      case (Some p)
      with wired out sw have "r = Inr ()" "s1 = gpio_output p (\<not> output_trigger out) s"
        by (simp_all add: output_switch_def)
      with wired Some same show ?thesis by auto
    qed
  next
    case wireless
    with out sw have "s1 = s \<or> (r = Inr () \<and> (\<exists>e. s1 = emit e s))"
      by (auto simp add: output_switch_def split: if_splits)
    with wireless same show ?thesis by auto
  next
    case command
    with out sw have "r = Inr () \<and> (s1 = s \<or> (\<exists>e. s1 = emit e s))"
      by (auto simp add: output_switch_def split: if_splits)
    with command same show ?thesis by auto
  next
    case pwm
    with out sw have "s1 = s \<or>
       (r = Inr () \<and> (\<exists>s0. s1 = set_output i (\<lambda>r. r\<lparr>pwm_state := None\<rparr>) s0 \<and>
           get_output s0 i = get_output s i \<and> gpio s0 = gpio s))"
      by (auto simp add: output_switch_def split: if_splits option.splits)
    with pwm out same show ?thesis by (auto simp add: get_output_set_output)
  next
    case other
    with out sw have "r = Inr () \<and> s1 = s" by (auto simp add: output_switch_def)
    with other same show ?thesis by auto
  qed
  then show "\<exists>o1. get_output s1 i = Some o1 \<and> o1\<lparr>pwm_state := None\<rparr> = out\<lparr>pwm_state := None\<rparr>"
    and "r \<noteq> Inr () \<Longrightarrow> s1 = s"
    and "r = Inr () \<Longrightarrow> output_type out = ''wired'' \<Longrightarrow>
           \<exists>p. output_pin out = Some p \<and> gpio s1 p = (\<not> output_trigger out)"
    and "output_type out \<noteq> ''wired'' \<Longrightarrow> gpio s1 = gpio s"
    by blast+
qed

lemma same_but_pwm_state:
  assumes "o1\<lparr>pwm_state := None\<rparr> = out\<lparr>pwm_state := None\<rparr>"
  shows "output_type o1 = output_type out" "output_pin o1 = output_pin out"
    "output_trigger o1 = output_trigger out"
    "output_time_turned_on o1 = output_time_turned_on out"
    "pwm_time_turned_on o1 = pwm_time_turned_on out"
proof -
  have "output_type (o1\<lparr>pwm_state := None\<rparr>) = output_type (out\<lparr>pwm_state := None\<rparr>)"
    "output_pin (o1\<lparr>pwm_state := None\<rparr>) = output_pin (out\<lparr>pwm_state := None\<rparr>)"
    "output_trigger (o1\<lparr>pwm_state := None\<rparr>) = output_trigger (out\<lparr>pwm_state := None\<rparr>)"
    "output_time_turned_on (o1\<lparr>pwm_state := None\<rparr>)
       = output_time_turned_on (out\<lparr>pwm_state := None\<rparr>)"
    "pwm_time_turned_on (o1\<lparr>pwm_state := None\<rparr>)
       = pwm_time_turned_on (out\<lparr>pwm_state := None\<rparr>)"
    using assms by (simp_all only:)
  then show "output_type o1 = output_type out" "output_pin o1 = output_pin out"
    "output_trigger o1 = output_trigger out"
    "output_time_turned_on o1 = output_time_turned_on out"
    "pwm_time_turned_on o1 = pwm_time_turned_on out"
    by simp_all
qed

text \<open>What the part of the off branch after the switch leaves of output i.\<close>

lemma off_tail:
  assumes sw: "output_switch s i ''off'' 0 = (Inr u, s1)"
    and ready: "is_setup out"
    and pin: "\<not> (output_type out \<in> set [''pwm'', ''wired'', ''wireless_433MHz_pi_switch'']
                \<and> output_pin out = None)"
    and g1: "get_output s1 i = Some o1"
    and same: "o1\<lparr>pwm_state := None\<rparr> = out\<lparr>pwm_state := None\<rparr>"
  shows "\<exists>o2. get_output (snd (output_off now s i out duration duty_cycle)) i = Some o2 \<and>
           gpio (snd (output_off now s i out duration duty_cycle)) = gpio s1 \<and>
           output_type o2 = output_type out \<and> output_pin o2 = output_pin out \<and>
           output_trigger o2 = output_trigger out \<and>
           (output_type out \<noteq> ''pwm'' \<longrightarrow> output_time_turned_on o2 = None) \<and>
           (output_type out = ''pwm'' \<longrightarrow> pwm_time_turned_on o2 = None)"
proof -
  note f = same_but_pwm_state [OF same]
  show ?thesis
  proof (cases "output_type out = ''pwm'' \<and> pwm_time_turned_on out \<noteq> None")
    case True
    then obtain t where t: "pwm_time_turned_on out = Some t" by auto
    with True sw ready pin g1 f show ?thesis
      by (auto simp add: output_off_def Let_def get_output_set_output)
  next
    case c1: False
    show ?thesis
    proof (cases "output_time_turned_on out")
      case None
      show ?thesis
      proof (cases "output_on_duration out")
        case True
        with None c1 sw ready pin g1 f show ?thesis
          by (auto simp add: output_off_def Let_def get_output_set_output)
      next
        case False
        with None c1 sw ready pin g1 f show ?thesis
          by (auto simp add: output_off_def Let_def)
      qed
    next
      case (Some t)
      show ?thesis
      proof (cases "output_on_duration out")
        case True
        with Some c1 sw ready pin g1 f show ?thesis
          by (auto simp add: output_off_def Let_def get_output_set_output)
      next
        case False
        with Some c1 sw ready pin g1 f show ?thesis
          by (auto simp add: output_off_def Let_def get_output_set_output)
      qed
    qed
  qed
qed

lemma off_not_turned_on:
  assumes out: "get_output s i = Some out"
  shows "is_on (snd (output_off now s i out duration duty_cycle)) i \<longrightarrow> is_on s i"
proof (cases "\<not> is_setup out \<or>
    (output_type out \<in> set [''pwm'', ''wired'', ''wireless_433MHz_pi_switch'']
       \<and> output_pin out = None)")
  case True
  then show ?thesis by (auto simp add: output_off_def)
next
  case False
  then have ready: "is_setup out"
    and pin: "\<not> (output_type out \<in> set [''pwm'', ''wired'', ''wireless_433MHz_pi_switch'']
                \<and> output_pin out = None)"
    by auto
  obtain r s1 where sw: "output_switch s i ''off'' 0 = (r, s1)"
    by (cases "output_switch s i ''off'' 0")
  show ?thesis
  proof (cases r)
    case (Inl e)
    with switch_off_view(2) [OF out sw] have "s1 = s" by simp
    with Inl sw ready pin show ?thesis by (simp add: output_off_def)
  next
    case (Inr u)
    from switch_off_view(1) [OF out sw] obtain o1 where g1: "get_output s1 i = Some o1"
      and same: "o1\<lparr>pwm_state := None\<rparr> = out\<lparr>pwm_state := None\<rparr>"
      by blast
    let ?s' = "snd (output_off now s i out duration duty_cycle)"
    from off_tail [OF sw [unfolded Inr] ready pin g1 same, of now duration duty_cycle]
    obtain o2 where g2: "get_output ?s' i = Some o2" and gp: "gpio ?s' = gpio s1"
      and ty: "output_type o2 = output_type out" and pn: "output_pin o2 = output_pin out"
      and tr: "output_trigger o2 = output_trigger out"
      and tto: "output_type out \<noteq> ''pwm'' \<longrightarrow> output_time_turned_on o2 = None"
      and ptto: "output_type out = ''pwm'' \<longrightarrow> pwm_time_turned_on o2 = None"
      by blast
    have "\<not> is_on ?s' i"
    proof (cases "output_type out = ''wired''")
      case True
      from switch_off_view(3) [OF out sw] Inr True obtain p
        where p: "output_pin out = Some p" "gpio s1 p = (\<not> output_trigger out)"
        by auto
      with g2 gp ty pn tr True show ?thesis
        by (simp add: is_on_def output_is_on_def)
    next
      case False
      with g2 ty tto ptto show ?thesis
        by (auto simp add: is_on_def output_is_on_def)
    qed
    then show ?thesis by simp
  qed
qed

lemma snd_switched [simp]: "snd (switched r d) = snd r"
  by (cases r) (auto simp add: switched_def split: sum.splits)

lemma quiet_on:
  assumes cfg: "budget_config s" and out: "get_output s i = Some out"
  shows "quiet i s (snd (output_on db now s i out duration min_off duty_cycle))"
proof -
  have a: "\<And>v w. quiet i s (set_output i
      (\<lambda>r. r\<lparr>output_on_until := v, output_last_duration := w\<rparr>) s)"
    by (rule quiet_set_output) simp_all
  have b: "\<And>u v w. quiet i s (set_output i
      (\<lambda>r. r\<lparr>output_on_duration := u, output_on_until := v, output_last_duration := w\<rparr>) s)"
    by (rule quiet_set_output) simp_all
  have c: "\<And>u v w st dc. quiet i s (snd (output_switch (set_output i
      (\<lambda>r. r\<lparr>output_on_until := v, output_on_duration := u, output_last_duration := w\<rparr>) s)
      i st dc))"
    by (rule quiet_switch_after [OF cfg out]) simp
  have d: "\<And>v st dc. quiet i s (snd (output_switch (set_output i
      (\<lambda>r. r\<lparr>output_time_turned_on := v\<rparr>) s) i st dc))"
    by (rule quiet_switch_after [OF cfg out]) simp
  have e: "\<And>v st dc. quiet i s (snd (output_switch (set_output i
      (\<lambda>r. r\<lparr>pwm_time_turned_on := v\<rparr>) s) i st dc))"
    by (rule quiet_switch_after [OF cfg out]) simp
  have e': "\<And>v st dc r s1. output_switch (set_output i
      (\<lambda>r. r\<lparr>pwm_time_turned_on := v\<rparr>) s) i st dc = (r, s1) \<Longrightarrow> quiet i s s1"
    using e by (metis snd_conv)
  show ?thesis
    unfolding output_on_def Let_def
    by (simp add: a b c d e' quiet_emit split: prod.splits sum.splits)
qed

lemma on_turned_on:
  assumes out: "get_output s i = Some out"
    and "snd (output_on db now s i out duration min_off duty_cycle) \<noteq> s"
  shows "output_type out = ''pwm'' \<or> current_amp_load s + output_amps out \<le> max_amps db"
  using assms
  by (auto simp add: output_on_def on_refused_def split: if_splits)

lemma quiet_safe:
  assumes safe: "safe db s" and out: "get_output s i = Some out"
    and q: "quiet i s s'"
    and turned: "is_on s' i \<and> \<not> is_on s i \<Longrightarrow>
       output_type out = ''pwm'' \<or> current_amp_load s + output_amps out \<le> max_amps db"
  shows "safe db s'"
proof -
  from safe have cfg: "budget_config s" and le: "current_amp_load s \<le> max_amps db"
    by (simp_all add: safe_def within_budget_def)
  from q have st: "static s' = static s"
    and others: "\<And>j. j \<noteq> i \<Longrightarrow> is_on s' j \<Longrightarrow> is_on s j"
    by (simp_all add: quiet_def)
  have cfg': "budget_config s'" using cfg budget_config_static [OF st] by simp
  have amps: "0 \<le> output_amps out" "output_type out = ''pwm'' \<Longrightarrow> output_amps out = 0"
    using cfg static_entry [OF out] unfolding budget_config_def by fast+
  note step = load_step [OF cfg st out others]
  have "current_amp_load s' \<le> max_amps db"
  proof (cases "is_on s' i \<and> \<not> is_on s i")
    case True
    with step have "current_amp_load s' \<le> current_amp_load s + output_amps out" by simp
    with turned [OF True] amps le show ?thesis by auto
  next
    case False
    with step le show ?thesis by auto
  qed
  with cfg' show ?thesis by (simp add: safe_def within_budget_def)
qed

lemma safe_on:
  assumes "safe db s" and out: "get_output s i = Some out"
  shows "safe db (snd (output_on db now s i out duration min_off duty_cycle))"
proof (rule quiet_safe [OF assms])
  show "quiet i s (snd (output_on db now s i out duration min_off duty_cycle))"
    using assms(1) by (intro quiet_on [OF _ out]) (simp add: safe_def)
next
  assume "is_on (snd (output_on db now s i out duration min_off duty_cycle)) i \<and> \<not> is_on s i"
  then have "snd (output_on db now s i out duration min_off duty_cycle) \<noteq> s" by auto
  from on_turned_on [OF out this]
  show "output_type out = ''pwm'' \<or> current_amp_load s + output_amps out \<le> max_amps db" .
qed

lemma safe_off:
  assumes "safe db s" and out: "get_output s i = Some out"
  shows "safe db (snd (output_off now s i out duration duty_cycle))"
proof (rule quiet_safe [OF assms])
  show "quiet i s (snd (output_off now s i out duration duty_cycle))"
    using assms(1) by (intro quiet_off [OF _ out]) (simp add: safe_def)
next
  assume "is_on (snd (output_off now s i out duration duty_cycle)) i \<and> \<not> is_on s i"
  with off_not_turned_on [OF out, of now duration duty_cycle]
  show "output_type out = ''pwm'' \<or> current_amp_load s + output_amps out \<le> max_amps db"
    by simp
qed

lemma safe_same:
  assumes "outputs s' = outputs s" and "gpio s' = gpio s"
  shows "safe db s' = safe db s"
proof -
  have "static s' = static s" using assms by (simp add: static_def)
  moreover have "\<And>j. is_on s' j = is_on s j"
    using assms by (simp add: is_on_def get_output_def split: option.splits)
  ultimately show ?thesis
    by (simp add: safe_def within_budget_def budget_config_def load_static)
qed

lemma safe_emit [simp]: "safe db (emit e s) = safe db s"
  by (rule safe_same) (simp_all add: emit_def)

lemma safe_email [simp]: "safe db (email_action now a s) = safe db s"
  by (rule safe_same) (simp_all add: email_action_def Let_def emit_def)

lemma safe_run_action:
  assumes sw: "\<And>s i st d. safe db s \<Longrightarrow> safe db (snd (switch s i st d))"
    and "safe db s"
  shows "safe db (snd (run_action switch now output_id state on_duration duty_cycle a s))"
  using assms(2) sw [OF assms(2), of "do_relay_id a" "do_relay_state a" "do_relay_duration a"]
  by (auto simp add: run_action_def split: prod.splits sum.splits option.splits)

lemma safe_run_actions:
  assumes sw: "\<And>s i st d. safe db s \<Longrightarrow> safe db (snd (switch s i st d))"
  shows "safe db s \<Longrightarrow>
    safe db (snd (run_actions switch now output_id state on_duration duty_cycle as s))"
proof (induction as arbitrary: s)
  case Nil
  then show ?case by simp
next
  case (Cons a as)
  have "safe db (snd (run_action switch now output_id state on_duration duty_cycle a s))"
    by (rule safe_run_action [OF sw Cons.prems])
  then show ?case
    using Cons.IH by (auto split: prod.splits sum.splits)
qed

lemma safe_run_conditionals:
  assumes sw: "\<And>s i st d. safe db s \<Longrightarrow> safe db (snd (switch s i st d))"
  shows "safe db s \<Longrightarrow>
    safe db (snd (run_conditionals switch db' now output_id state on_duration duty_cycle cs s))"
proof (induction cs arbitrary: s)
  case Nil
  then show ?case by simp
next
  case (Cons c cs)
  have "safe db (snd (run_actions switch now output_id state on_duration duty_cycle
      (filter (\<lambda>a. action_conditional_id a = conditional_id c) (conditional_actions db')) s))"
    by (rule safe_run_actions [OF sw Cons.prems])
  then show ?case
    using Cons.IH by (auto split: prod.splits sum.splits)
qed

lemma safe_body:
  assumes sw: "\<And>s i st d. safe db s \<Longrightarrow> safe db (snd (switch s i st d))"
    and safe: "safe db s"
  shows "safe db (snd (output_on_off_body switch db now s output_id state duration min_off
                         duty_cycle trig))"
proof (cases "get_output s output_id")
  case None
  with safe show ?thesis by (simp add: output_on_off_body_def)
next
  case (Some out)
  let ?r = "if state = ''on''
              then output_on db now s output_id out duration min_off duty_cycle
            else if state = ''off''
              then output_off now s output_id out duration duty_cycle
            else (Continue duration, s)"
  have s1: "safe db (snd ?r)"
    using safe_on [OF safe Some] safe_off [OF safe Some] safe by simp
  obtain fl s1 where r: "?r = (fl, s1)" by (cases ?r)
  with s1 have safe1: "safe db s1" by simp
  have body: "output_on_off_body switch db now s output_id state duration min_off
                duty_cycle trig
      = (case (fl, s1) of
             (Return r, s1) \<Rightarrow> (Inr r, s1)
           | (Raise e, s1) \<Rightarrow> (Inl e, s1)
           | (Continue on_duration, s1) \<Rightarrow>
               if trig then
                 (case check_conditionals switch db now s1 output_id state on_duration
                         duty_cycle of
                    (Inl e, s2) \<Rightarrow> (Inl e, s2)
                  | (Inr _, s2) \<Rightarrow> (Inr None, s2))
               else (Inr None, s1))"
    using Some r by (simp add: output_on_off_body_def)
  show ?thesis
  proof (cases fl)
    case (Continue d)
    have "safe db (snd (run_conditionals switch db now output_id state d duty_cycle
        (matching_conditionals db s1 output_id d) s1))"
      by (rule safe_run_conditionals [OF sw safe1])
    then show ?thesis
      using body Continue safe1
      by (auto simp add: check_conditionals_def split: prod.splits sum.splits)
  qed (use body safe1 in simp_all)
qed

lemma safe_output_on_off:
  "safe db s \<Longrightarrow>
     safe db (snd (output_on_off depth db now s output_id state duration min_off duty_cycle
                     trig))"
proof (induction depth arbitrary: s output_id state duration min_off duty_cycle trig)
  case 0
  show ?case by (simp, rule safe_body [OF _ "0.prems"]) simp
next
  case (Suc depth)
  show ?case by (simp, rule safe_body [OF _ Suc.prems]) (rule Suc.IH)
qed

lemma safe_run_output: "safe db s \<Longrightarrow> safe db (run_output depth db now output_id s)"
  using safe_output_on_off [of db s depth now output_id "''off''" 0 0 0 True]
  by (simp add: run_output_def Let_def split: option.splits)

lemma safe_fold_run_output:
  "safe db s \<Longrightarrow> safe db (fold (run_output depth db now) ids s)"
  by (induction ids arbitrary: s) (simp_all add: safe_run_output)

lemma safe_serve: "safe db s \<Longrightarrow> safe db (serve depth db request s)"
proof (cases request)
  case (Pair now r)
  assume "safe db s"
  then show ?thesis
    using Pair by (cases r) (simp_all add: safe_output_on_off run_loop_pass_def
        safe_fold_run_output)
qed

lemma safe_fold_serve: "safe db s \<Longrightarrow> safe db (fold (serve depth db) requests s)"
  by (induction requests arbitrary: s) (simp_all add: safe_serve)

text \<open>
  C2 (as amended). On a registry with distinct ids, without negative amps, whose PWM outputs
  draw nothing and whose wired outputs have pins of their own, and with \<open>max_amps\<close>
  unchanged: when the amps of the outputs observed on are within \<open>max_amps\<close>, they still are
  after any sequence of on-, off- and duty-cycle requests, each with the cascade of its
  conditionals whatever its depth, and of passes of the loop of \<open>run\<close>, served one after
  another.
\<close>

theorem budget_kept:
  assumes "budget_config s" and "current_amp_load s \<le> max_amps db"
  shows "current_amp_load (fold (serve depth db) requests s) \<le> max_amps db \<and>
         budget_config (fold (serve depth db) requests s)"
proof -
  from assms have "safe db s" by (simp add: safe_def within_budget_def)
  then have "safe db (fold (serve depth db) requests s)" by (rule safe_fold_serve)
  then show ?thesis by (simp add: safe_def within_budget_def)
qed

text \<open>
  The claim as stated fails: a PWM output that draws 6 A is switched on under a budget of
  5 A. The request is carried out without a check, and the load is 6 A. It also fails when
  two wired outputs of 6 A share a pin: switching one on under a budget of 10 A passes the
  check, and then both are observed on.
\<close>

theorem budget_kept_counterexample:
  "current_amp_load pwm_heater \<le> max_amps (no_rules 5) \<and>
   fst (output_on_off 0 (no_rules 5) 100 pwm_heater 1 ''on'' 0 0 50 True) = Inr None \<and>
   current_amp_load (serve 0 (no_rules 5) (100, Switch 1 ''on'' 0 0 50 True) pwm_heater) = 6 \<and>
   \<not> current_amp_load (serve 0 (no_rules 5) (100, Switch 1 ''on'' 0 0 50 True) pwm_heater)
       \<le> max_amps (no_rules 5) \<and>
   current_amp_load shared_pin \<le> max_amps (no_rules 10) \<and>
   current_amp_load (serve 0 (no_rules 10) (100, Switch 1 ''on'' 0 0 0 True) shared_pin) = 12 \<and>
   \<not> current_amp_load (serve 0 (no_rules 10) (100, Switch 1 ''on'' 0 0 0 True) shared_pin)
       \<le> max_amps (no_rules 10)"
  by (simp add: pwm_heater_def shared_pin_def model)

theorem budget_kept_witness:
  "budget_config (two_outputs ''wired'') \<and>
   current_amp_load (two_outputs ''wired'') \<le> max_amps (no_rules 10) \<and>
   current_amp_load
     (fold (serve 2 (no_rules 10))
        [(100, Switch 1 ''on'' 0 0 0 True), (200, Switch 2 ''on'' 30 0 0 True), (300, Pass),
         (400, Switch 1 ''off'' 0 0 0 True), (500, Switch 2 ''on'' 30 0 0 True), (600, Pass)]
        (two_outputs ''wired''))
     \<le> max_amps (no_rules 10)"
proof -
  have h1: "budget_config (two_outputs ''wired'')"
    by (simp add: budget_config_def static_def two_outputs_def idle_controller_def
        idle_output_def)
  have h2: "current_amp_load (two_outputs ''wired'') \<le> max_amps (no_rules 10)"
    by (simp add: model)
  from budget_kept [OF h1 h2] show ?thesis using h1 h2 by blast
qed

subsection \<open>Outputs switched on for a duration\<close>

lemma load_same:
  assumes "static s' = static s" and "\<And>j. is_on s' j = is_on s j"
  shows "current_amp_load s' = current_amp_load s"
  using assms by (simp add: load_static)

lemma no_rule_check:
  assumes "filter (\<lambda>c. if_relay_id c = output_id \<and> is_activated c) (conditionals db) = []"
  shows "check_conditionals switch db now s output_id state on_duration duty_cycle = (Inr (), s)"
proof (rule unwatched_check)
  show "\<forall>c \<in> set (conditionals db). if_relay_id c = output_id \<longrightarrow> \<not> is_activated c"
    using assms by (auto simp add: filter_empty_conv)
qed

lemma command_off:
  "get_output s output_id = Some out \<Longrightarrow> output_type out = ''command'' \<Longrightarrow>
     output_time_turned_on out = None \<Longrightarrow> \<not> is_on s output_id"
  by (simp add: is_on_def output_is_on_def)

text \<open>
  The last branch of the timed case for a command output (lines 298 to 308): it is taken
  unless the output is on with a duration running, it runs the on-command, and it changes
  what \<open>is_on\<close> reports for no output.
\<close>

lemma command_on_for_duration:
  assumes out: "get_output s output_id = Some out"
    and type: "output_type out = ''command''"
    and cmd: "output_on_command out \<noteq> []"
    and d: "duration \<noteq> 0"
    and ok: "\<not> on_refused db now s output_id out min_off"
    and first: "\<not> (is_on s output_id \<and> output_on_duration out)"
  shows "output_on db now s output_id out duration min_off duty_cycle
           = (Continue duration,
              emit (Cmd_output (output_on_command out))
                (set_output output_id
                   (\<lambda>r. r\<lparr>output_on_until := now + duration, output_on_duration := True,
                            output_last_duration := duration\<rparr>) s))"
    and "is_on
           (emit (Cmd_output (output_on_command out))
              (set_output output_id
                 (\<lambda>r. r\<lparr>output_on_until := now + duration, output_on_duration := True,
                          output_last_duration := duration\<rparr>) s)) j = is_on s j"
    and "static
           (emit (Cmd_output (output_on_command out))
              (set_output output_id
                 (\<lambda>r. r\<lparr>output_on_until := now + duration, output_on_duration := True,
                          output_last_duration := duration\<rparr>) s)) = static s"
proof -
  let ?f = "\<lambda>r. r\<lparr>output_on_until := now + duration, output_on_duration := True,
                    output_last_duration := duration\<rparr>"
  let ?s = "set_output output_id ?f s"
  have ne: "outputs s \<noteq> []" by (rule registered_nonempty [OF out])
  have g: "get_output ?s output_id = Some (?f out)"
    using out by (simp add: get_output_set_output)
  have sw: "output_switch ?s output_id ''on'' 0
              = (Inr (), emit (Cmd_output (output_on_command out)) ?s)"
    using g type cmd by (simp add: output_switch_def)
  show "output_on db now s output_id out duration min_off duty_cycle
           = (Continue duration, emit (Cmd_output (output_on_command out)) ?s)"
    using type first d ok sw ne by (auto simp add: output_on_def switched_def)
  have "is_on ?s j = is_on s j"
  proof (cases "j = output_id")
    case True
    have "is_on ?s output_id = output_is_on (gpio s) (?f out)"
      using out by (simp add: is_on_set_output)
    also have "\<dots> = output_is_on (gpio s) out"
      using type by (simp add: output_is_on_def)
    also have "\<dots> = is_on s output_id"
      using out by (simp add: is_on_def)
    finally show ?thesis using True by simp
  next
    case False
    then show ?thesis by (simp add: is_on_set_output)
  qed
  then show "is_on (emit (Cmd_output (output_on_command out)) ?s) j = is_on s j"
    by simp
  show "static (emit (Cmd_output (output_on_command out)) ?s) = static s"
    by (simp add: static_set_output)
qed

lemma command_on_for_duration_call:
  assumes "get_output s output_id = Some out"
    and "output_type out = ''command''"
    and "output_on_command out \<noteq> []"
    and "duration \<noteq> 0"
    and "\<not> on_refused db now s output_id out min_off"
    and "\<not> (is_on s output_id \<and> output_on_duration out)"
    and "filter (\<lambda>c. if_relay_id c = output_id \<and> is_activated c) (conditionals db) = []"
  shows "output_on_off depth db now s output_id ''on'' duration min_off duty_cycle trig
           = (Inr None,
              emit (Cmd_output (output_on_command out))
                (set_output output_id
                   (\<lambda>r. r\<lparr>output_on_until := now + duration, output_on_duration := True,
                            output_last_duration := duration\<rparr>) s))"
  using assms(1) command_on_for_duration(1) [OF assms(1-6), of duty_cycle]
  by (simp add: output_on_off_cascade output_on_off_body_def no_rule_check [OF assms(7)])

lemma budget_passed_by:
  assumes "get_output s output_id = Some out"
    and "output_type out = ''command''"
    and "output_on_command out \<noteq> []"
    and "output_time_turned_on out = None"
    and "duration \<noteq> 0"
    and "\<not> on_refused db now s output_id out min_off"
    and "filter (\<lambda>c. if_relay_id c = output_id \<and> is_activated c) (conditionals db) = []"
  shows
    "fst (output_on_off depth db now s output_id ''on'' duration min_off duty_cycle trig)
       = Inr None \<and>
     events (snd (output_on_off depth db now s output_id ''on'' duration min_off duty_cycle trig))
       = events s @ [Cmd_output (output_on_command out)] \<and>
     \<not> is_on (snd (output_on_off depth db now s output_id ''on'' duration min_off duty_cycle
                      trig)) output_id \<and>
     current_amp_load
         (snd (output_on_off depth db now s output_id ''on'' duration min_off duty_cycle trig))
       = current_amp_load s"
proof -
  let ?s' = "emit (Cmd_output (output_on_command out))
                (set_output output_id
                   (\<lambda>r. r\<lparr>output_on_until := now + duration, output_on_duration := True,
                            output_last_duration := duration\<rparr>) s)"
  have off: "\<not> is_on s output_id" by (rule command_off [OF assms(1,2,4)])
  then have first: "\<not> (is_on s output_id \<and> output_on_duration out)" by simp
  note step = command_on_for_duration [OF assms(1,2,3,5,6) first]
  have r: "output_on_off depth db now s output_id ''on'' duration min_off duty_cycle trig
             = (Inr None, ?s')"
    by (rule command_on_for_duration_call [OF assms(1,2,3,5,6) first assms(7)])
  have on: "\<And>j. is_on ?s' j = is_on s j" by (rule step(2))
  have load: "current_amp_load ?s' = current_amp_load s"
    by (rule load_same [OF step(3) on])
  show ?thesis
    unfolding r using on off load by simp
qed

lemma x_on_for_30_command:
  "output_on_off 0 (no_rules 10) 100 (two_outputs ''command'') 1 ''on'' 30 0 0 True
     = (Inr None, x_on_for_30 ''command'')"
  "events (x_on_for_30 ''command'') = [Cmd_output ''22559'']"
  "map_option output_on_duration (get_output (x_on_for_30 ''command'') 1) = Some True"
  "map_option output_on_until (get_output (x_on_for_30 ''command'') 1) = Some 130"
  "\<not> is_on (x_on_for_30 ''command'') 1"
  "current_amp_load (x_on_for_30 ''command'') = 0"
  "fst (output_on_off 0 (no_rules 10) 110 (x_on_for_30 ''command'') 2 ''on'' 30 0 0 True)
     = Inr None"
  "events (snd (output_on_off 0 (no_rules 10) 110 (x_on_for_30 ''command'') 2 ''on'' 30 0 0 True))
     = [Cmd_output ''22559'', Cmd_output ''22559'']"
  by (simp_all add: x_on_for_30_def model)

lemma x_on_for_30_wireless:
  "events (x_on_for_30 ''wireless_433MHz_pi_switch'') = [Transmit 1 ''22559'']"
  "\<not> is_on (x_on_for_30 ''wireless_433MHz_pi_switch'') 1"
  "fst (output_on_off 0 (no_rules 10) 110 (x_on_for_30 ''wireless_433MHz_pi_switch'') 2
          ''on'' 30 0 0 True) = Inr None"
  "events (snd (output_on_off 0 (no_rules 10) 110 (x_on_for_30 ''wireless_433MHz_pi_switch'') 2
                  ''on'' 30 0 0 True))
     = [Transmit 1 ''22559'', Transmit 2 ''22559'']"
  by (simp_all add: x_on_for_30_def model)

lemma y_refused_when_x_observed:
  "is_on (x_switched_on ''command'') 1"
  "output_on_off 0 (no_rules 10) 110 (x_switched_on ''command'') 2 ''on'' 30 0 0 True
     = (Inr (Some 1), x_switched_on ''command'')"
  "is_on (x_on_for_30 ''wired'') 1"
  "output_on_off 0 (no_rules 10) 110 (x_on_for_30 ''wired'') 2 ''on'' 30 0 0 True
     = (Inr (Some 1), x_on_for_30 ''wired'')"
  by (simp_all add: x_on_for_30_def x_switched_on_def model)

text \<open>
  C1. The budget check of \<open>output_on_off\<close> adds the amps of the requesting output to
  \<open>current_amp_load\<close>, the amps of the outputs that \<open>is_on\<close> reports. For a command or
  wireless output \<open>is_on\<close> reads \<open>output_time_turned_on\<close>, which the untimed on-path sets
  (line 324) and the timed on-path (lines 298 to 308) does not. So an on-request with a
  duration for a command output that is off runs the on-command and returns None, and the
  output is not observed on and adds nothing to the load. With a budget of 10 A and X and Y
  drawing 6 A each: X is switched on for 30 seconds at the instant 100; at 110, inside that
  interval, the load still reads 0 and the on-request for Y is carried out as well (both
  on-commands, or both transmissions, are in the trace), although 6 A + 6 A exceed 10 A.
  When X was switched on without a duration, or when X and Y are wired, the same request
  for Y is refused with 1 and changes nothing.
\<close>

theorem timed_on_escapes_budget:
  "(get_output s output_id = Some out \<and> output_type out = ''command'' \<and>
    output_on_command out \<noteq> [] \<and> output_time_turned_on out = None \<and> duration \<noteq> 0 \<and>
    \<not> on_refused db now s output_id out min_off \<and>
    filter (\<lambda>c. if_relay_id c = output_id \<and> is_activated c) (conditionals db) = [] \<longrightarrow>
      fst (output_on_off depth db now s output_id ''on'' duration min_off duty_cycle trig)
        = Inr None \<and>
      events (snd (output_on_off depth db now s output_id ''on'' duration min_off duty_cycle
                     trig))
        = events s @ [Cmd_output (output_on_command out)] \<and>
      \<not> is_on (snd (output_on_off depth db now s output_id ''on'' duration min_off duty_cycle
                       trig)) output_id \<and>
      current_amp_load
          (snd (output_on_off depth db now s output_id ''on'' duration min_off duty_cycle trig))
        = current_amp_load s) \<and>
   output_on_off 0 (no_rules 10) 100 (two_outputs ''command'') 1 ''on'' 30 0 0 True
     = (Inr None, x_on_for_30 ''command'') \<and>
   events (x_on_for_30 ''command'') = [Cmd_output ''22559''] \<and>
   map_option output_on_duration (get_output (x_on_for_30 ''command'') 1) = Some True \<and>
   map_option output_on_until (get_output (x_on_for_30 ''command'') 1) = Some 130 \<and>
   \<not> is_on (x_on_for_30 ''command'') 1 \<and>
   current_amp_load (x_on_for_30 ''command'') = 0 \<and>
   fst (output_on_off 0 (no_rules 10) 110 (x_on_for_30 ''command'') 2 ''on'' 30 0 0 True)
     = Inr None \<and>
   events (snd (output_on_off 0 (no_rules 10) 110 (x_on_for_30 ''command'') 2 ''on'' 30 0 0 True))
     = [Cmd_output ''22559'', Cmd_output ''22559''] \<and>
   events (x_on_for_30 ''wireless_433MHz_pi_switch'') = [Transmit 1 ''22559''] \<and>
   \<not> is_on (x_on_for_30 ''wireless_433MHz_pi_switch'') 1 \<and>
   fst (output_on_off 0 (no_rules 10) 110 (x_on_for_30 ''wireless_433MHz_pi_switch'') 2
          ''on'' 30 0 0 True) = Inr None \<and>
   events (snd (output_on_off 0 (no_rules 10) 110 (x_on_for_30 ''wireless_433MHz_pi_switch'') 2
                  ''on'' 30 0 0 True))
     = [Transmit 1 ''22559'', Transmit 2 ''22559''] \<and>
   is_on (x_switched_on ''command'') 1 \<and>
   output_on_off 0 (no_rules 10) 110 (x_switched_on ''command'') 2 ''on'' 30 0 0 True
     = (Inr (Some 1), x_switched_on ''command'') \<and>
   is_on (x_on_for_30 ''wired'') 1 \<and>
   output_on_off 0 (no_rules 10) 110 (x_on_for_30 ''wired'') 2 ''on'' 30 0 0 True
     = (Inr (Some 1), x_on_for_30 ''wired'')"
  apply (intro conjI impI)
  subgoal by (elim conjE, drule (6) budget_passed_by, elim conjE, assumption)
  subgoal by (elim conjE, drule (6) budget_passed_by, elim conjE, assumption)
  subgoal by (elim conjE, drule (6) budget_passed_by [where trig = trig], elim conjE) simp
  subgoal by (elim conjE, drule (6) budget_passed_by, elim conjE, assumption)
  subgoal by (rule x_on_for_30_command)
  subgoal by (rule x_on_for_30_command)
  subgoal by (rule x_on_for_30_command)
  subgoal by (rule x_on_for_30_command)
  subgoal by (rule x_on_for_30_command)
  subgoal by (rule x_on_for_30_command)
  subgoal by (rule x_on_for_30_command)
  subgoal by (rule x_on_for_30_command)
  subgoal by (rule x_on_for_30_wireless)
  subgoal by (rule x_on_for_30_wireless)
  subgoal by (rule x_on_for_30_wireless)
  subgoal by (rule x_on_for_30_wireless)
  subgoal by (rule y_refused_when_x_observed)
  subgoal by (rule y_refused_when_x_observed)
  subgoal by (rule y_refused_when_x_observed)
  subgoal by (rule y_refused_when_x_observed)
  done

theorem timed_on_escapes_budget_witness:
  "get_output (x_on_for_30 ''command'') 2 = Some (idle_output ''Y'' ''command'' None 6) \<and>
   \<not> on_refused (no_rules 10) 110 (x_on_for_30 ''command'') 2
        (idle_output ''Y'' ''command'' None 6) 0 \<and>
   filter (\<lambda>c. if_relay_id c = 2 \<and> is_activated c) (conditionals (no_rules 10)) = [] \<and>
   fst (output_on_off 2 (no_rules 10) 110 (x_on_for_30 ''command'') 2 ''on'' 30 0 0 True)
     = Inr None \<and>
   events (snd (output_on_off 2 (no_rules 10) 110 (x_on_for_30 ''command'') 2 ''on'' 30 0 0 True))
     = [Cmd_output ''22559'', Cmd_output ''22559''] \<and>
   current_amp_load
       (snd (output_on_off 2 (no_rules 10) 110 (x_on_for_30 ''command'') 2 ''on'' 30 0 0 True))
     = 0"
proof -
  let ?out = "idle_output ''Y'' ''command'' None 6"
  have h1: "get_output (x_on_for_30 ''command'') 2 = Some ?out"
    by (simp add: x_on_for_30_def model)
  have h2: "output_type ?out = ''command''" "output_on_command ?out \<noteq> []"
    "output_time_turned_on ?out = None" "(30::real) \<noteq> 0"
    by (simp_all add: idle_output_def)
  have h3: "\<not> on_refused (no_rules 10) 110 (x_on_for_30 ''command'') 2 ?out 0"
    by (simp add: on_refused_def x_on_for_30_command) (simp add: idle_output_def no_rules_def)
  have h4: "filter (\<lambda>c. if_relay_id c = 2 \<and> is_activated c) (conditionals (no_rules 10)) = []"
    by (simp add: no_rules_def)
  have h: "get_output (x_on_for_30 ''command'') 2 = Some ?out \<and> output_type ?out = ''command'' \<and>
    output_on_command ?out \<noteq> [] \<and> output_time_turned_on ?out = None \<and> (30::real) \<noteq> 0 \<and>
    \<not> on_refused (no_rules 10) 110 (x_on_for_30 ''command'') 2 ?out 0 \<and>
    filter (\<lambda>c. if_relay_id c = 2 \<and> is_activated c) (conditionals (no_rules 10)) = []"
    using h1 h2 h3 h4 by simp
  have c: "output_on_command ?out = ''22559''" by (simp add: idle_output_def)
  from timed_on_escapes_budget [THEN conjunct1, rule_format, OF h, of 2 0 True]
  show ?thesis using h1 h3 h4 c by (simp add: x_on_for_30_command)
qed

subsection \<open>Which rules an on-request triggers\<close>

lemma off_rules:
  "\<not> is_on s output_id \<Longrightarrow>
     matching_conditionals db s output_id on_duration
       = filter (\<lambda>c. if_relay_id c = output_id \<and> is_activated c \<and> if_relay_state c = ''off'')
           (conditionals db)"
  by (simp add: matching_conditionals_def Let_def conj_commute conj_left_commute cong: conj_cong)

lemma timed_on_matches_off:
  assumes "get_output s output_id = Some out"
    and "output_type out = ''command''"
    and "output_on_command out \<noteq> []"
    and "output_time_turned_on out = None"
    and "duration \<noteq> 0"
    and "\<not> on_refused db now s output_id out min_off"
  shows
    "fst (output_on db now s output_id out duration min_off duty_cycle) = Continue duration \<and>
     events (snd (output_on db now s output_id out duration min_off duty_cycle))
       = events s @ [Cmd_output (output_on_command out)] \<and>
     matching_conditionals db
         (snd (output_on db now s output_id out duration min_off duty_cycle)) output_id duration
       = filter (\<lambda>c. if_relay_id c = output_id \<and> is_activated c \<and> if_relay_state c = ''off'')
           (conditionals db)"
proof -
  have off: "\<not> is_on s output_id" by (rule command_off [OF assms(1,2,4)])
  then have first: "\<not> (is_on s output_id \<and> output_on_duration out)" by simp
  note step = command_on_for_duration [OF assms(1,2,3,5,6) first]
  have "\<not> is_on
             (emit (Cmd_output (output_on_command out))
                (set_output output_id
                   (\<lambda>r. r\<lparr>output_on_until := now + duration, output_on_duration := True,
                            output_last_duration := duration\<rparr>) s)) output_id"
    unfolding step(2) by (rule off)
  from off_rules [OF this] show ?thesis
    by (simp add: step(1))
qed

lemma a_on_for_events:
  "fst (output_on_off 0 email_rules 100 (two_outputs ''command'') 1 ''on'' 30 0 0 True) = Inr None"
  "events (a_on_for ''command'' 30) = [Cmd_output ''22559'', Send_email ''off'']"
  "events (a_on_for ''wireless_433MHz_pi_switch'' 30) = [Transmit 1 ''22559'', Send_email ''off'']"
  "events (a_on_for ''command'' 0) = [Cmd_output ''22559'', Send_email ''on-any'']"
  "events (a_on_for ''wired'' 30)
     = [GPIO_output 17 True, Send_email ''on-30'', Send_email ''on-any'']"
  by (simp_all add: a_on_for_def email_rules_def rule_def email_for_def email_to_def model)

text \<open>
  C5. \<open>check_conditionals\<close> selects the rules by what \<open>is_on\<close> reports after the request, and
  a command or wireless output switched on with a duration is not observed on (see C1). So
  an on-request with a duration for a command output that is off runs its on-command and
  then the actions of the activated rules bound to the output that watch \<open>off\<close>, and of no
  rule watching \<open>on\<close> or \<open>on_any\<close>. With one rule watching \<open>on\<close> with the duration 30, one
  watching \<open>off\<close> and one watching \<open>on_any\<close> on output X, each sending an e-mail: switching
  the command or wireless output X on for 30 seconds sends the e-mail of the rule watching
  \<open>off\<close> only. The command output switched on without a duration, and the wired output
  switched on for 30 seconds, send the e-mails of the rules that watch the on-transition.
\<close>

theorem timed_on_triggers_off_rules:
  "(get_output s output_id = Some out \<and> output_type out = ''command'' \<and>
    output_on_command out \<noteq> [] \<and> output_time_turned_on out = None \<and> duration \<noteq> 0 \<and>
    \<not> on_refused db now s output_id out min_off \<longrightarrow>
      fst (output_on db now s output_id out duration min_off duty_cycle) = Continue duration \<and>
      events (snd (output_on db now s output_id out duration min_off duty_cycle))
        = events s @ [Cmd_output (output_on_command out)] \<and>
      matching_conditionals db
          (snd (output_on db now s output_id out duration min_off duty_cycle)) output_id duration
        = filter (\<lambda>c. if_relay_id c = output_id \<and> is_activated c \<and> if_relay_state c = ''off'')
            (conditionals db)) \<and>
   fst (output_on_off 0 email_rules 100 (two_outputs ''command'') 1 ''on'' 30 0 0 True)
     = Inr None \<and>
   events (a_on_for ''command'' 30) = [Cmd_output ''22559'', Send_email ''off''] \<and>
   events (a_on_for ''wireless_433MHz_pi_switch'' 30)
     = [Transmit 1 ''22559'', Send_email ''off''] \<and>
   events (a_on_for ''command'' 0) = [Cmd_output ''22559'', Send_email ''on-any''] \<and>
   events (a_on_for ''wired'' 30)
     = [GPIO_output 17 True, Send_email ''on-30'', Send_email ''on-any'']"
  apply (intro conjI impI)
  subgoal by (elim conjE, drule (5) timed_on_matches_off, elim conjE, assumption)
  subgoal by (elim conjE, drule (5) timed_on_matches_off, elim conjE, assumption)
  subgoal by (elim conjE, drule (5) timed_on_matches_off, elim conjE, assumption)
  subgoal by (rule a_on_for_events)
  subgoal by (rule a_on_for_events)
  subgoal by (rule a_on_for_events)
  subgoal by (rule a_on_for_events)
  subgoal by (rule a_on_for_events)
  done

theorem timed_on_triggers_off_rules_witness:
  "get_output (two_outputs ''command'') 1 = Some (idle_output ''X'' ''command'' None 6) \<and>
   \<not> on_refused email_rules 100 (two_outputs ''command'') 1
        (idle_output ''X'' ''command'' None 6) 0 \<and>
   matching_conditionals email_rules
       (snd (output_on email_rules 100 (two_outputs ''command'') 1
               (idle_output ''X'' ''command'' None 6) 30 0 0)) 1 30
     = [rule 2 1 ''off'' None]"
proof -
  let ?out = "idle_output ''X'' ''command'' None 6"
  have h1: "get_output (two_outputs ''command'') 1 = Some ?out"
    by (simp add: model)
  have h3: "\<not> on_refused email_rules 100 (two_outputs ''command'') 1 ?out 0"
    by (simp add: email_rules_def model)
  have h: "get_output (two_outputs ''command'') 1 = Some ?out \<and> output_type ?out = ''command'' \<and>
    output_on_command ?out \<noteq> [] \<and> output_time_turned_on ?out = None \<and> (30::real) \<noteq> 0 \<and>
    \<not> on_refused email_rules 100 (two_outputs ''command'') 1 ?out 0"
    using h1 h3 by (simp add: idle_output_def)
  from timed_on_triggers_off_rules [THEN conjunct1, rule_format, OF h, of 0]
  show ?thesis using h1 h3 by (simp add: email_rules_def rule_def)
qed

subsection \<open>Giving a duration to an output that is on without one\<close>

lemma untimed_never_0:
  assumes "get_output s output_id = Some out"
    and "is_on s output_id"
    and "\<not> output_on_duration out"
  shows "fst (output_on_off depth db now s output_id ''on'' duration min_off duty_cycle trig)
           \<noteq> Inr (Some 0)"
proof
  assume "fst (output_on_off depth db now s output_id ''on'' duration min_off duty_cycle trig)
           = Inr (Some 0)"
  then have "fst (output_on_off_body (cascade depth db now) db now s output_id ''on'' duration
                min_off duty_cycle trig) = Inr (Some 0)"
    by (simp add: output_on_off_cascade)
  from body_returns_0 [OF this] assms(1,3) show False by auto
qed

lemma untimed_on_again:
  "is_on (x_switched_on ''command'') 1"
  "events (x_switched_on ''command'') = [Cmd_output ''22559'']"
  "fst (output_on_off 0 (no_rules 20) 200 (x_switched_on ''command'') 1 ''on'' 30 0 0 True)
     = Inr None"
  "events (snd (output_on_off 0 (no_rules 20) 200 (x_switched_on ''command'') 1 ''on'' 30 0 0 True))
     = [Cmd_output ''22559'', Cmd_output ''22559'']"
  "get_output
     (snd (output_on_off 0 (no_rules 20) 200 (x_switched_on ''command'') 1 ''on'' 30 0 0 True)) 1
     = Some ((idle_output ''X'' ''command'' None 6)
               \<lparr>output_time_turned_on := Some 100, output_on_until := 230,
                output_on_duration := True, output_last_duration := 30\<rparr>)"
  "events (snd (output_on_off 0 (no_rules 20) 200 (x_switched_on ''wired'') 1 ''on'' 30 0 0 True))
     = [GPIO_output 17 True, GPIO_output 17 True]"
  "output_on_off 0 (no_rules 10) 200 (x_switched_on ''command'') 1 ''on'' 30 0 0 True
     = (Inr (Some 1), x_switched_on ''command'')"
  "fst (output_on_off 0 (no_rules 20) 110 x_timed_on 1 ''on'' 60 0 0 True) = Inr (Some 0)"
  "events (snd (output_on_off 0 (no_rules 20) 110 x_timed_on 1 ''on'' 60 0 0 True))
     = [GPIO_output 17 True, Write_influxdb ''X'' ''duration_sec'' 10 (Some 100)]"
  by (simp_all add: x_switched_on_def x_timed_on_def model)

text \<open>
  C6. For an output that is on without a duration, an on-request with a duration never
  returns 0. The branch written for this case (lines 286 to 297: record the duration and
  return 0) tests \<open>not self.output_on_duration\<close>, the dictionary, which is not empty when
  the output is registered; the request takes the last branch instead. For a command
  output it records the duration (\<open>output_on_until\<close> is \<open>now\<close> plus the duration), runs the
  on-command once more and returns None. The command output X, on since the instant 100, is
  given a duration of 30 at the instant 200 under a budget of 20 A: the on-command is in
  the trace twice and None is returned; likewise the pin of the wired X is driven twice.
  Under a budget of 10 A the same request is refused with 1, since the budget check adds
  the 6 A of X to a load that already contains them. The first branch, for an output that
  is on with a duration, returns 0 and does not switch.
\<close>

theorem untimed_on_switched_again:
  "(get_output s output_id = Some out \<and> is_on s output_id \<and> \<not> output_on_duration out \<longrightarrow>
      fst (output_on_off depth db now s output_id ''on'' duration min_off duty_cycle trig)
        \<noteq> Inr (Some 0)) \<and>
   (get_output s output_id = Some out \<and> output_type out = ''command'' \<and>
    output_on_command out \<noteq> [] \<and> duration \<noteq> 0 \<and>
    \<not> on_refused db now s output_id out min_off \<and>
    \<not> (is_on s output_id \<and> output_on_duration out) \<and>
    filter (\<lambda>c. if_relay_id c = output_id \<and> is_activated c) (conditionals db) = [] \<longrightarrow>
      output_on_off depth db now s output_id ''on'' duration min_off duty_cycle trig
        = (Inr None,
           emit (Cmd_output (output_on_command out))
             (set_output output_id
                (\<lambda>r. r\<lparr>output_on_until := now + duration, output_on_duration := True,
                         output_last_duration := duration\<rparr>) s))) \<and>
   is_on (x_switched_on ''command'') 1 \<and>
   events (x_switched_on ''command'') = [Cmd_output ''22559''] \<and>
   fst (output_on_off 0 (no_rules 20) 200 (x_switched_on ''command'') 1 ''on'' 30 0 0 True)
     = Inr None \<and>
   events (snd (output_on_off 0 (no_rules 20) 200 (x_switched_on ''command'') 1 ''on'' 30 0 0 True))
     = [Cmd_output ''22559'', Cmd_output ''22559''] \<and>
   get_output
     (snd (output_on_off 0 (no_rules 20) 200 (x_switched_on ''command'') 1 ''on'' 30 0 0 True)) 1
     = Some ((idle_output ''X'' ''command'' None 6)
               \<lparr>output_time_turned_on := Some 100, output_on_until := 230,
                output_on_duration := True, output_last_duration := 30\<rparr>) \<and>
   events (snd (output_on_off 0 (no_rules 20) 200 (x_switched_on ''wired'') 1 ''on'' 30 0 0 True))
     = [GPIO_output 17 True, GPIO_output 17 True] \<and>
   output_on_off 0 (no_rules 10) 200 (x_switched_on ''command'') 1 ''on'' 30 0 0 True
     = (Inr (Some 1), x_switched_on ''command'') \<and>
   fst (output_on_off 0 (no_rules 20) 110 x_timed_on 1 ''on'' 60 0 0 True) = Inr (Some 0) \<and>
   events (snd (output_on_off 0 (no_rules 20) 110 x_timed_on 1 ''on'' 60 0 0 True))
     = [GPIO_output 17 True, Write_influxdb ''X'' ''duration_sec'' 10 (Some 100)]"
  apply (intro conjI impI)
  subgoal by (elim conjE, rule untimed_never_0)
  subgoal by (elim conjE, rule command_on_for_duration_call) simp_all
  subgoal by (rule untimed_on_again)
  subgoal by (rule untimed_on_again)
  subgoal by (rule untimed_on_again)
  subgoal by (rule untimed_on_again)
  subgoal by (rule untimed_on_again)
  subgoal by (rule untimed_on_again)
  subgoal by (rule untimed_on_again)
  subgoal by (rule untimed_on_again)
  subgoal by (rule untimed_on_again)
  done

theorem untimed_on_switched_again_witness:
  "get_output (x_switched_on ''command'') 1
     = Some ((idle_output ''X'' ''command'' None 6)\<lparr>output_time_turned_on := Some 100\<rparr>) \<and>
   is_on (x_switched_on ''command'') 1 \<and>
   \<not> on_refused (no_rules 20) 200 (x_switched_on ''command'') 1
        ((idle_output ''X'' ''command'' None 6)\<lparr>output_time_turned_on := Some 100\<rparr>) 0 \<and>
   fst (output_on_off 2 (no_rules 20) 200 (x_switched_on ''command'') 1 ''on'' 30 0 0 True)
     \<noteq> Inr (Some 0) \<and>
   fst (output_on_off 2 (no_rules 20) 200 (x_switched_on ''command'') 1 ''on'' 30 0 0 True)
     = Inr None \<and>
   events (snd (output_on_off 2 (no_rules 20) 200 (x_switched_on ''command'') 1 ''on'' 30 0 0
                  True))
     = [Cmd_output ''22559'', Cmd_output ''22559'']"
proof -
  let ?out = "(idle_output ''X'' ''command'' None 6)\<lparr>output_time_turned_on := Some 100\<rparr>"
  have h1: "get_output (x_switched_on ''command'') 1 = Some ?out"
    by (rule x_switched_on_command)
  have h2: "is_on (x_switched_on ''command'') 1" by (rule x_switched_on_command)
  have h3: "\<not> on_refused (no_rules 20) 200 (x_switched_on ''command'') 1 ?out 0"
    by (simp add: on_refused_def x_switched_on_command) (simp add: idle_output_def no_rules_def)
  have a: "get_output (x_switched_on ''command'') 1 = Some ?out \<and>
      is_on (x_switched_on ''command'') 1 \<and> \<not> output_on_duration ?out"
    using h1 h2 by (simp add: idle_output_def)
  have b: "get_output (x_switched_on ''command'') 1 = Some ?out \<and> output_type ?out = ''command'' \<and>
    output_on_command ?out \<noteq> [] \<and> (30::real) \<noteq> 0 \<and>
    \<not> on_refused (no_rules 20) 200 (x_switched_on ''command'') 1 ?out 0 \<and>
    \<not> (is_on (x_switched_on ''command'') 1 \<and> output_on_duration ?out) \<and>
    filter (\<lambda>c. if_relay_id c = 1 \<and> is_activated c) (conditionals (no_rules 20)) = []"
    using h1 h3 by (simp add: idle_output_def no_rules_def)
  have c: "output_on_command ?out = ''22559''" by (simp add: idle_output_def)
  have e: "events (x_switched_on ''command'') = [Cmd_output ''22559'']"
    by (rule untimed_on_again)
  note t1 = untimed_on_switched_again [THEN conjunct1, rule_format, OF a, of 2 "no_rules 20" 200 30 0 0 True]
  note t2 = untimed_on_switched_again [THEN conjunct2, THEN conjunct1, rule_format, OF b, of 2 0 True]
  show ?thesis using h1 h2 h3 t1 t2 c e by simp
qed

subsection \<open>Expiration of a timed on-interval\<close>

lemma pinless_skipped:
  assumes "list_all (\<lambda>(i, out). output_pin out = None) (outputs s)"
  shows "fold (run_output depth db now) ids s = s"
proof (induction ids)
  case Nil
  show ?case by simp
next
  case (Cons i ids)
  have "run_output depth db now i s = s"
  proof (cases "get_output s i")
    case None
    then show ?thesis by (simp add: run_output_def)
  next
    case (Some out)
    then have "(i, out) \<in> set (outputs s)" by (simp add: get_output_def map_of_SomeD)
    with assms have "output_pin out = None" by (auto simp add: list_all_iff)
    with Some show ?thesis by (simp add: run_output_def)
  qed
  with Cons.IH show ?case by simp
qed

lemma pinless_pass:
  "list_all (\<lambda>(i, out). output_pin out = None) (outputs s) \<Longrightarrow>
     run_loop_pass depth db now s = s"
  by (simp add: run_loop_pass_def pinless_skipped)

lemma x_timed_on_expires:
  "is_on x_timed_on 1"
  "map_option output_on_until (get_output x_timed_on 1) = Some 130"
  "events x_timed_on = [GPIO_output 17 True]"
  "events (run_loop_pass 0 (no_rules 20) 131 x_timed_on)
     = [GPIO_output 17 True, GPIO_output 17 False,
        Write_influxdb ''X'' ''duration_sec'' 30 (Some 101),
        Write_influxdb ''X'' ''duration_sec'' 30 (Some 101)]"
  "count_list (events (run_loop_pass 0 (no_rules 20) 131 x_timed_on))
     (Write_influxdb ''X'' ''duration_sec'' 30 (Some 101)) = 2"
  "\<not> is_on (run_loop_pass 0 (no_rules 20) 131 x_timed_on) 1"
  "events (snd (output_on_off 0 (no_rules 20) 131 x_timed_on 1 ''off'' 0 0 0 True))
     = [GPIO_output 17 True, GPIO_output 17 False,
        Write_influxdb ''X'' ''duration_sec'' 30 (Some 101)]"
  by (simp_all add: x_timed_on_def model)

lemma command_timed_on_stays:
  "events command_timed_on = [Cmd_output ''22559'']"
  "map_option output_on_duration (get_output command_timed_on 1) = Some True"
  "map_option output_on_until (get_output command_timed_on 1) = Some 130"
  "run_loop_pass 0 (no_rules 20) 100000 command_timed_on = command_timed_on"
  by (simp_all add: command_timed_on_def model)

text \<open>
  C3. The wired output X is switched on for 30 seconds at the instant 100. The pass of the
  loop of \<open>run\<close> at the instant 131 finds the interval expired and issues the off-request:
  X is observed off afterwards, and the sample \<open>duration_sec\<close> with the value 30 has been
  written twice, once by the off-request (lines 387 to 413) and once more by the loop
  itself (lines 137 to 146). An off-request made by a caller at that instant writes the
  sample once. The loop also skips every output without a pin (line 127): a pass leaves a
  controller whose outputs have no pin as it is, whatever the instant. The command output X
  has no pin; \<open>output_on_off\<close> switches it on for 30 seconds (line 246), and no pass of the
  loop switches it off again.
\<close>

theorem expiry_sampled_twice:
  "(list_all (\<lambda>(i, out). output_pin out = None) (outputs s) \<longrightarrow>
      run_loop_pass depth db now s = s) \<and>
   is_on x_timed_on 1 \<and>
   map_option output_on_until (get_output x_timed_on 1) = Some 130 \<and>
   events x_timed_on = [GPIO_output 17 True] \<and>
   events (run_loop_pass 0 (no_rules 20) 131 x_timed_on)
     = [GPIO_output 17 True, GPIO_output 17 False,
        Write_influxdb ''X'' ''duration_sec'' 30 (Some 101),
        Write_influxdb ''X'' ''duration_sec'' 30 (Some 101)] \<and>
   count_list (events (run_loop_pass 0 (no_rules 20) 131 x_timed_on))
     (Write_influxdb ''X'' ''duration_sec'' 30 (Some 101)) = 2 \<and>
   \<not> is_on (run_loop_pass 0 (no_rules 20) 131 x_timed_on) 1 \<and>
   events (snd (output_on_off 0 (no_rules 20) 131 x_timed_on 1 ''off'' 0 0 0 True))
     = [GPIO_output 17 True, GPIO_output 17 False,
        Write_influxdb ''X'' ''duration_sec'' 30 (Some 101)] \<and>
   events command_timed_on = [Cmd_output ''22559''] \<and>
   map_option output_on_duration (get_output command_timed_on 1) = Some True \<and>
   map_option output_on_until (get_output command_timed_on 1) = Some 130 \<and>
   run_loop_pass 0 (no_rules 20) 100000 command_timed_on = command_timed_on"
  apply (intro conjI impI)
  subgoal by (rule pinless_pass)
  subgoal by (rule x_timed_on_expires)
  subgoal by (rule x_timed_on_expires)
  subgoal by (rule x_timed_on_expires)
  subgoal by (rule x_timed_on_expires)
  subgoal by (rule x_timed_on_expires)
  subgoal by (rule x_timed_on_expires)
  subgoal by (rule x_timed_on_expires)
  subgoal by (rule command_timed_on_stays)
  subgoal by (rule command_timed_on_stays)
  subgoal by (rule command_timed_on_stays)
  subgoal by (rule command_timed_on_stays)
  done

theorem expiry_sampled_twice_witness:
  "list_all (\<lambda>(i, out). output_pin out = None) (outputs command_timed_on) \<and>
   map_option output_on_duration (get_output command_timed_on 1) = Some True \<and>
   map_option output_on_until (get_output command_timed_on 1) = Some 130 \<and>
   run_loop_pass 3 email_rules 5000 command_timed_on = command_timed_on"
proof -
  have h: "list_all (\<lambda>(i, out). output_pin out = None) (outputs command_timed_on)"
    by (simp add: command_timed_on_def model)
  from expiry_sampled_twice [THEN conjunct1, rule_format, OF h, of 3 email_rules 5000]
  show ?thesis using h by (simp add: command_timed_on_stays)
qed

end
